theory Spec2Isabelle
  imports Complex_Main
begin

section \<open>Data model (types.ts)\<close>

text \<open>
  The enums and interfaces of \<^verbatim>\<open>types.ts\<close>.  Field names are those of the source,
  except that the four \<^verbatim>\<open>id\<close> fields and the \<^verbatim>\<open>name\<close> and \<^verbatim>\<open>description\<close> of a project
  carry a letter for their record (\<open>tid\<close>, \<open>pid\<close>, \<open>uid\<close>, \<open>mid\<close>, \<open>pname\<close>,
  \<open>pdescription\<close>), because \<open>id\<close> is the identity function of HOL and a field name
  belongs to one record only.  A JavaScript string is a list of characters; a
  timestamp (\<^verbatim>\<open>Date.now()\<close>) is an integer number of milliseconds.
\<close>

datatype TaskStatus = TODO | IN_PROGRESS | REVIEW | DONE

datatype TaskCategory = FRONTEND | API | DEVOPS | DESIGN | GENERAL

datatype Priority = LOW | MEDIUM | HIGH

datatype UserRole = ADMIN | MANAGER | EMPLOYEE

record Project =
  pid :: string
  pname :: string
  pdescription :: string

text \<open>
  \<open>TaskData\<close> is \<^verbatim>\<open>Omit<Task, 'id' | 'createdAt' | 'projectId'>\<close>, the argument type of
  \<^verbatim>\<open>handleSaveTask\<close>; \<open>Task\<close> extends it with the three omitted fields.
\<close>

record TaskData =
  title :: string
  description :: string
  status :: TaskStatus
  category :: TaskCategory
  assignee :: string
  priority :: Priority
  acceptanceCriteria :: "string list"
  estimatedHours :: real
  technicalPlan :: "string option"

record Task = TaskData +
  tid :: string
  projectId :: string
  createdAt :: int

record User =
  uid :: string
  name :: string
  email :: string
  role :: UserRole
  avatar :: string

record LiveMeeting =
  mid :: string
  hostId :: string
  hostName :: string
  topic :: string
  startTime :: int
  isActive :: bool
  participants :: "string list"

section \<open>Effects and component state\<close>

text \<open>
  What a handler does besides updating React state: the two browser dialogs and the two
  writing operations of \<^verbatim>\<open>localStorage\<close>.  A handler returns the list of the effects it
  performed, in order.
\<close>

datatype effect =
    Alert string
  | Confirm string
  | SetItem string string
  | RemoveItem string

type_synonym storage = "string \<rightharpoonup> string"

fun apply_effect :: "effect \<Rightarrow> storage \<Rightarrow> storage" where
  "apply_effect (SetItem k v) st = st(k \<mapsto> v)"
| "apply_effect (RemoveItem k) st = st(k := None)"
| "apply_effect (Alert m) st = st"
| "apply_effect (Confirm m) st = st"

definition apply_effects :: "effect list \<Rightarrow> storage \<Rightarrow> storage" where
  "apply_effects es st = foldl (\<lambda>s e. apply_effect e s) st es"

fun is_write :: "effect \<Rightarrow> bool" where
  "is_write (SetItem k v) = True"
| "is_write (RemoveItem k) = True"
| "is_write (Alert m) = False"
| "is_write (Confirm m) = False"

text \<open>
  The state of the \<^verbatim>\<open>App\<close> component that the task and meeting handlers read and write
  (the \<^verbatim>\<open>useState\<close> cells \<^verbatim>\<open>projects\<close>, \<^verbatim>\<open>activeProjectId\<close>, \<^verbatim>\<open>tasks\<close>, \<^verbatim>\<open>isModalOpen\<close>,
  \<^verbatim>\<open>taskToEdit\<close> and \<^verbatim>\<open>liveMeeting\<close>).
\<close>

record App =
  projects :: "Project list"
  activeProjectId :: string
  tasks :: "Task list"
  isModalOpen :: bool
  taskToEdit :: "Task option"
  liveMeeting :: "LiveMeeting option"

section \<open>Task and project handlers (App)\<close>

text \<open>\<^verbatim>\<open>s.substr(start, len)\<close> for non-negative arguments.\<close>

definition substr :: "string \<Rightarrow> nat \<Rightarrow> nat \<Rightarrow> string" where
  "substr s start len = take len (drop start s)"

text \<open>
  \<^verbatim>\<open>Math.random().toString(36).substr(2, 9)\<close>.  The argument \<open>rnd\<close> is the base-36
  rendering of the number that \<^verbatim>\<open>Math.random()\<close> returned, e.g. \<open>''0.i''\<close> for 0.5.
\<close>

definition randomId :: "string \<Rightarrow> string" where
  "randomId rnd = substr rnd 2 9"

definition handleCreateProject :: "string \<Rightarrow> string \<Rightarrow> string \<Rightarrow> App \<Rightarrow> App" where
  "handleCreateProject rnd nm desc s =
     (let newProject = \<lparr>pid = randomId rnd, pname = nm, pdescription = desc\<rparr>
      in s\<lparr>projects := projects s @ [newProject], activeProjectId := pid newProject\<rparr>)"

text \<open>\<^verbatim>\<open>{ ...t, ...taskData }\<close>: the nine fields of the form overwrite those of \<open>t\<close>.\<close>

definition spreadTaskData :: "Task \<Rightarrow> TaskData \<Rightarrow> Task" where
  "spreadTaskData t d =
     t\<lparr>title := title d, description := description d, status := status d,
       category := category d, assignee := assignee d, priority := priority d,
       acceptanceCriteria := acceptanceCriteria d, estimatedHours := estimatedHours d,
       technicalPlan := technicalPlan d\<rparr>"

text \<open>\<^verbatim>\<open>{ ...taskData, id: ..., projectId: activeProjectId, createdAt: Date.now() }\<close>.\<close>

definition newTask :: "TaskData \<Rightarrow> string \<Rightarrow> string \<Rightarrow> int \<Rightarrow> Task" where
  "newTask d i p now =
     \<lparr>title = title d, description = description d, status = status d,
      category = category d, assignee = assignee d, priority = priority d,
      acceptanceCriteria = acceptanceCriteria d, estimatedHours = estimatedHours d,
      technicalPlan = technicalPlan d, tid = i, projectId = p, createdAt = now\<rparr>"

text \<open>
  \<^verbatim>\<open>handleSaveTask\<close>.  \<open>rnd\<close> and \<open>now\<close> are what \<^verbatim>\<open>Math.random().toString(36)\<close> and
  \<^verbatim>\<open>Date.now()\<close> return during the call (they are read in the creating branch only).
\<close>

definition handleSaveTask :: "string \<Rightarrow> int \<Rightarrow> TaskData \<Rightarrow> App \<Rightarrow> App" where
  "handleSaveTask rnd now taskData s =
     (case taskToEdit s of
        Some e \<Rightarrow>
          s\<lparr>tasks := map (\<lambda>t. if tid t = tid e then spreadTaskData t taskData else t) (tasks s),
            taskToEdit := None\<rparr>
      | None \<Rightarrow>
          s\<lparr>tasks := tasks s @ [newTask taskData (randomId rnd) (activeProjectId s) now],
            taskToEdit := None\<rparr>)"

text \<open>
  \<^verbatim>\<open>handleDeleteTask\<close>.  \<open>user\<close> is the value of \<^verbatim>\<open>useAuth().user\<close> (\<open>None\<close> for
  \<^verbatim>\<open>null\<close>); \<open>answer\<close> is what the \<^verbatim>\<open>confirm\<close> dialog returns for a given message.
\<close>

definition handleDeleteTask ::
  "User option \<Rightarrow> (string \<Rightarrow> bool) \<Rightarrow> string \<Rightarrow> App \<Rightarrow> App \<times> effect list" where
  "handleDeleteTask user answer taskId s =
     (if map_option role user = Some EMPLOYEE then
        (s, [Alert ''Clearance Level Insufficient: Cannot delete objectives.''])
      else if answer ''Confirm protocol: Delete this objective?'' then
        (s\<lparr>tasks := filter (\<lambda>t. tid t \<noteq> taskId) (tasks s)\<rparr>,
         [Confirm ''Confirm protocol: Delete this objective?''])
      else
        (s, [Confirm ''Confirm protocol: Delete this objective?'']))"

definition handleStatusChange :: "string \<Rightarrow> TaskStatus \<Rightarrow> App \<Rightarrow> App" where
  "handleStatusChange taskId newStatus s =
     s\<lparr>tasks := map (\<lambda>t. if tid t = taskId then t\<lparr>status := newStatus\<rparr> else t) (tasks s)\<rparr>"

definition openNewTaskModal :: "App \<Rightarrow> App" where
  "openNewTaskModal s = s\<lparr>taskToEdit := None, isModalOpen := True\<rparr>"

definition openEditTaskModal :: "Task \<Rightarrow> App \<Rightarrow> App" where
  "openEditTaskModal task s = s\<lparr>taskToEdit := Some task, isModalOpen := True\<rparr>"

text \<open>A lookup by id, \<^verbatim>\<open>tasks.find(t => t.id === i)\<close>.\<close>

definition findTask :: "string \<Rightarrow> Task list \<Rightarrow> Task option" where
  "findTask i ts = find (\<lambda>t. tid t = i) ts"

section \<open>Initial data and the event loop\<close>

text \<open>
  \<^verbatim>\<open>INITIAL_PROJECTS\<close> and \<^verbatim>\<open>INITIAL_TASKS\<close>.  The initialiser of each task reads
  \<^verbatim>\<open>Date.now()\<close>; \<open>clock k\<close> is the reading taken for task \<open>k\<close>.  The initial tasks
  have no \<^verbatim>\<open>technicalPlan\<close> key.
\<close>

definition INITIAL_PROJECTS :: "Project list" where
  "INITIAL_PROJECTS =
    [\<lparr>pid = ''p1'', pname = ''E-Commerce Replatform'',
      pdescription = ''Migrating legacy monolith to Next.js and Microservices.''\<rparr>,
     \<lparr>pid = ''p2'', pname = ''Mobile App v2.0'',
      pdescription = ''Complete redesign of the customer loyalty mobile application.''\<rparr>,
     \<lparr>pid = ''p3'', pname = ''Internal Admin Dashboard'',
      pdescription = ''Back-office tools for inventory and user management.''\<rparr>]"

definition INITIAL_TASKS :: "(nat \<Rightarrow> int) \<Rightarrow> Task list" where
  "INITIAL_TASKS clock =
    [\<lparr>title = ''Product Listing Page (PLP)'',
      description = ''Implement grid layout with filtering and sorting for products.'',
      status = DONE, category = FRONTEND, assignee = ''Sarah'', priority = HIGH,
      acceptanceCriteria = [''Filters work'', ''Responsive grid'', ''Load more pagination''],
      estimatedHours = 12, technicalPlan = None,
      tid = ''t1'', projectId = ''p1'', createdAt = clock 1 - 200000000\<rparr>,
     \<lparr>title = ''Checkout API Integration'',
      description = ''Integrate Stripe Payment Intents API for secure checkout.'',
      status = IN_PROGRESS, category = API, assignee = ''Mike'', priority = HIGH,
      acceptanceCriteria = [''Payment intent created'', ''Webhook handler setup''],
      estimatedHours = 8, technicalPlan = None,
      tid = ''t2'', projectId = ''p1'', createdAt = clock 2 - 100000000\<rparr>,
     \<lparr>title = ''CI/CD Pipeline Setup'',
      description = ''Configure GitHub Actions for automated testing and deployment to AWS.'',
      status = REVIEW, category = DEVOPS, assignee = ''Yassine'', priority = HIGH,
      acceptanceCriteria = [''Build passes'', ''Tests run'', ''Deploys to staging''],
      estimatedHours = 6, technicalPlan = None,
      tid = ''t3'', projectId = ''p1'', createdAt = clock 3 - 50000000\<rparr>,
     \<lparr>title = ''Redis Caching Layer'',
      description = ''Implement caching for frequent product API queries to reduce DB load.'',
      status = TODO, category = API, assignee = ''Mike'', priority = MEDIUM,
      acceptanceCriteria = [''Cache hit ratio > 80%'', ''TTL configured''],
      estimatedHours = 4, technicalPlan = None,
      tid = ''t4'', projectId = ''p1'', createdAt = clock 4\<rparr>,
     \<lparr>title = ''Biometric Authentication'',
      description = ''Implement FaceID/TouchID login using native modules.'',
      status = TODO, category = FRONTEND, assignee = ''Sarah'', priority = MEDIUM,
      acceptanceCriteria = [''FaceID works on iOS'', ''Fallback to PIN''],
      estimatedHours = 5, technicalPlan = None,
      tid = ''t5'', projectId = ''p2'', createdAt = clock 5 - 10000000\<rparr>,
     \<lparr>title = ''Push Notification Service'',
      description = ''Setup Firebase Cloud Messaging for marketing alerts.'',
      status = IN_PROGRESS, category = API, assignee = ''Mike'', priority = LOW,
      acceptanceCriteria = [''Token registration'', ''Send endpoint works''],
      estimatedHours = 6, technicalPlan = None,
      tid = ''t6'', projectId = ''p2'', createdAt = clock 6 - 5000000\<rparr>,
     \<lparr>title = ''User Management Table'',
      description =
        ''Create a data table with search and bulk actions for user administration.'',
      status = TODO, category = FRONTEND, assignee = ''Mike'', priority = LOW,
      acceptanceCriteria = [''Search by email'', ''Bulk delete'', ''Pagination''],
      estimatedHours = 4, technicalPlan = None,
      tid = ''t7'', projectId = ''p3'', createdAt = clock 7\<rparr>,
     \<lparr>title = ''Inventory Analytics Charts'',
      description = ''Visualize stock levels using Recharts bar and line charts.'',
      status = TODO, category = FRONTEND, assignee = ''Sarah'', priority = MEDIUM,
      acceptanceCriteria = [''Bar chart for categories'', ''Line chart for trends''],
      estimatedHours = 6, technicalPlan = None,
      tid = ''t8'', projectId = ''p3'', createdAt = clock 8\<rparr>]"

text \<open>
  The state of \<^verbatim>\<open>App\<close> at its first render.  \<^verbatim>\<open>INITIAL_PROJECTS[0].id\<close> is the id of the
  first element of a list that is not empty.
\<close>

definition initialApp :: "(nat \<Rightarrow> int) \<Rightarrow> App" where
  "initialApp clock =
     \<lparr>projects = INITIAL_PROJECTS,
      activeProjectId = (case INITIAL_PROJECTS of p # _ \<Rightarrow> pid p | [] \<Rightarrow> []),
      tasks = INITIAL_TASKS clock,
      isModalOpen = False,
      taskToEdit = None,
      liveMeeting = None\<rparr>"

text \<open>The mock users of \<^verbatim>\<open>AuthContext\<close> (\<^verbatim>\<open>MOCK_USERS\<close>).\<close>

definition mockAdmin :: User where
  "mockAdmin = \<lparr>uid = ''u1'', name = ''Yassine Admin'', email = ''admin@devflow.com'',
     role = ADMIN, avatar = ''https://api.dicebear.com/7.x/avataaars/svg?seed=Yassine''\<rparr>"

definition mockManager :: User where
  "mockManager = \<lparr>uid = ''u2'', name = ''Sarah Manager'', email = ''manager@devflow.com'',
     role = MANAGER, avatar = ''https://api.dicebear.com/7.x/avataaars/svg?seed=Sarah''\<rparr>"

definition mockEmployee :: User where
  "mockEmployee = \<lparr>uid = ''u3'', name = ''Mike Developer'', email = ''employee@devflow.com'',
     role = EMPLOYEE, avatar = ''https://api.dicebear.com/7.x/avataaars/svg?seed=Mike''\<rparr>"

text \<open>
  The intents that the board and the task form raise on the entity store, each with the
  values the handler reads from its environment (random number, clock, current user,
  answer of the confirmation dialog).  Creating a task is \<open>NewTask\<close> followed by
  \<open>SaveTask\<close>; updating one is \<open>EditTask\<close> followed by \<open>SaveTask\<close>.
  \<open>SelectProject k\<close> is a click on the \<open>k\<close>-th project of the sidebar of the board
  (\<^verbatim>\<open>onSelectProject(project.id)\<close>) and \<open>NavigateToTask k\<close> a click on the card of the
  \<open>k\<close>-th task in the team view (\<^verbatim>\<open>setActiveProjectId(task.projectId)\<close>); there is no
  such button when \<open>k\<close> is out of range.
\<close>

datatype event =
    CreateProject string string string
  | NewTask
  | EditTask Task
  | SaveTask string int TaskData
  | DeleteTask "User option" "string \<Rightarrow> bool" string
  | StatusChange string TaskStatus
  | SelectProject nat
  | NavigateToTask nat

fun step :: "event \<Rightarrow> App \<Rightarrow> App" where
  "step (CreateProject rnd nm desc) s = handleCreateProject rnd nm desc s"
| "step NewTask s = openNewTaskModal s"
| "step (EditTask t) s = openEditTaskModal t s"
| "step (SaveTask rnd now d) s = handleSaveTask rnd now d s"
| "step (DeleteTask user answer taskId) s = fst (handleDeleteTask user answer taskId s)"
| "step (StatusChange taskId st) s = handleStatusChange taskId st s"
| "step (SelectProject k) s =
     (if k < length (projects s) then s\<lparr>activeProjectId := pid (projects s ! k)\<rparr> else s)"
| "step (NavigateToTask k) s =
     (if k < length (tasks s) then s\<lparr>activeProjectId := projectId (tasks s ! k)\<rparr> else s)"

fun run :: "event list \<Rightarrow> App \<Rightarrow> App" where
  "run [] s = s"
| "run (e # es) s = run es (step e s)"

text \<open>A form content and a clock used in the examples below.\<close>

definition sampleData :: TaskData where
  "sampleData =
     \<lparr>title = ''Rate limiter'', description = ''Throttle the public API.'',
      status = TODO, category = API, assignee = ''Mike'', priority = MEDIUM,
      acceptanceCriteria = [''429 on burst''], estimatedHours = 4,
      technicalPlan = Some []\<rparr>"

definition sampleClock :: "nat \<Rightarrow> int" where
  "sampleClock k = 1700000000000"

definition otherData :: TaskData where
  "otherData =
     \<lparr>title = ''Audit log'', description = ''Record every deletion.'',
      status = IN_PROGRESS, category = GENERAL, assignee = ''Sarah'', priority = HIGH,
      acceptanceCriteria = [], estimatedHours = 2,
      technicalPlan = Some []\<rparr>"

text \<open>The board after a click on the edit button of task \<open>t2\<close>.\<close>

definition editState :: App where
  "editState = openEditTaskModal (INITIAL_TASKS sampleClock ! 1) (initialApp sampleClock)"

text \<open>The form opened on a task whose id is not in the store.\<close>

definition ghostTask :: Task where
  "ghostTask = newTask sampleData ''zzz'' ''p1'' 0"

definition ghostEditState :: App where
  "ghostEditState = openEditTaskModal ghostTask (initialApp sampleClock)"

text \<open>The store after one task was created while \<^verbatim>\<open>Math.random()\<close> returned 0.5.\<close>

definition collisionState :: App where
  "collisionState = handleSaveTask ''0.i'' 1700000000001 sampleData (initialApp sampleClock)"

definition sampleEvents :: "event list" where
  "sampleEvents =
     [CreateProject ''0.k3x9q'' ''Titan'' ''New mission'',
      NewTask,
      SaveTask ''0.abcdefghijk'' 1700000000001 sampleData,
      EditTask (INITIAL_TASKS sampleClock ! 1),
      SaveTask ''0.zz'' 1700000000002 otherData,
      DeleteTask (Some mockAdmin) (\<lambda>m. True) ''t1'',
      StatusChange ''t4'' DONE,
      NavigateToTask 4,
      SelectProject 3]"

text \<open>
  The invariant behind referential integrity: the active project and the project of
  every task are in the project list.
\<close>

definition invariant :: "App \<Rightarrow> bool" where
  "invariant s \<longleftrightarrow>
     activeProjectId s \<in> pid ` set (projects s) \<and>
     (\<forall>t \<in> set (tasks s). projectId t \<in> pid ` set (projects s))"

section \<open>Permission policy of the board (TaskBoard, StatusColumn)\<close>

text \<open>
  Characters are code units in the Latin-1 range.  \<^verbatim>\<open>toLowerCase\<close> maps \<open>A\<close>--\<open>Z\<close> and
  the capital letters \<open>0xC0\<close>--\<open>0xDE\<close> (but not the multiplication sign \<open>0xD7\<close>) to the
  code unit 32 higher and leaves every other code unit as it is.
\<close>

definition toLowerChar :: "char \<Rightarrow> char" where
  "toLowerChar c =
     (let n = (of_char c :: nat)
      in if (65 \<le> n \<and> n \<le> 90) \<or> (192 \<le> n \<and> n \<le> 222 \<and> n \<noteq> 215)
         then char_of (n + 32) else c)"

definition toLowerCase :: "string \<Rightarrow> string" where
  "toLowerCase s = map toLowerChar s"

text \<open>\<^verbatim>\<open>s.split(sep)\<close> for a separator of one character: never the empty list.\<close>

fun split :: "char \<Rightarrow> string \<Rightarrow> string list" where
  "split sep [] = [[]]"
| "split sep (c # cs) =
     (if c = sep then [] # split sep cs
      else (case split sep cs of w # ws \<Rightarrow> (c # w) # ws | [] \<Rightarrow> [[c]]))"

text \<open>\<^verbatim>\<open>s.startsWith(p)\<close> and \<^verbatim>\<open>h.includes(n)\<close>.\<close>

fun startsWith :: "string \<Rightarrow> string \<Rightarrow> bool" where
  "startsWith s [] = True"
| "startsWith [] (p # ps) = False"
| "startsWith (c # cs) (p # ps) = (c = p \<and> startsWith cs ps)"

fun str_includes :: "string \<Rightarrow> string \<Rightarrow> bool" where
  "str_includes [] n = (n = [])"
| "str_includes (c # cs) n = (startsWith (c # cs) n \<or> str_includes cs n)"

text \<open>
  The permission logic of \<^verbatim>\<open>StatusColumn\<close>, per task.  \<^verbatim>\<open>isAssignee\<close> is
  \<^verbatim>\<open>user?.name && task.assignee.toLowerCase().includes(user.name.split(' ')[0].toLowerCase())\<close>
  read as a truth value: \<^verbatim>\<open>undefined\<close> (no user) and the empty string (empty name) are
  falsy.  \<^verbatim>\<open>canDrag\<close> is \<^verbatim>\<open>user?.role !== 'EMPLOYEE' || isAssignee\<close>.
\<close>

definition isAssignee :: "User option \<Rightarrow> Task \<Rightarrow> bool" where
  "isAssignee user task =
     (case user of
        None \<Rightarrow> False
      | Some u \<Rightarrow>
          name u \<noteq> [] \<and>
          (case split CHR '' '' (name u) of
             first # _ \<Rightarrow> str_includes (toLowerCase (assignee task)) (toLowerCase first)
           | [] \<Rightarrow> False))"

definition canDrag :: "User option \<Rightarrow> Task \<Rightarrow> bool" where
  "canDrag user task \<longleftrightarrow> map_option role user \<noteq> Some EMPLOYEE \<or> isAssignee user task"


text \<open>
  The assignee match rule in the words of the specification: case-insensitive, the
  first name token is a substring of the assignee string or the assignee string is a
  substring of the first name token.
\<close>

definition spec_fuzzyMatch :: "User \<Rightarrow> Task \<Rightarrow> bool" where
  "spec_fuzzyMatch u task =
     (let token = toLowerCase (takeWhile (\<lambda>c. c \<noteq> CHR '' '') (name u));
          a = toLowerCase (assignee task)
      in str_includes a token \<or> str_includes token a)"

text \<open>An employee whose first name token is longer than the assignee label.\<close>

definition sarahJane :: User where
  "sarahJane = \<lparr>uid = ''u4'', name = ''Sarah-Jane Smith'', email = ''sj@devflow.com'',
     role = EMPLOYEE, avatar = []\<rparr>"

section \<open>JSON text (the platform's \<^verbatim>\<open>JSON.parse\<close> and \<^verbatim>\<open>JSON.stringify\<close>)\<close>

text \<open>
  The shared record is stored as JSON text.  \<open>json\<close> is the syntax tree of a JSON text;
  a number and a string keep their lexeme (the digits as written, the characters
  between the quotes with their escapes), which is all that the handlers below depend
  on: whether a text parses, and whether it is \<^verbatim>\<open>null\<close>.
\<close>

datatype json =
    JNull
  | JBool bool
  | JNumber string
  | JString string
  | JArray "json list"
  | JObject "(string \<times> json) list"

definition dquote :: char where "dquote = CHR 0x22"
definition backslash :: char where "backslash = CHR 0x5C"

text \<open>The grammar of JSON: white space, strings, numbers, then values.\<close>

definition is_json_ws :: "char \<Rightarrow> bool" where
  "is_json_ws c \<longleftrightarrow> c = CHR '' '' \<or> c = CHR 0x09 \<or> c = CHR 0x0A \<or> c = CHR 0x0D"

definition skip_ws :: "string \<Rightarrow> string" where
  "skip_ws s = dropWhile is_json_ws s"

definition is_digit :: "char \<Rightarrow> bool" where
  "is_digit c \<longleftrightarrow> c \<in> set ''0123456789''"

definition is_hex :: "char \<Rightarrow> bool" where
  "is_hex c \<longleftrightarrow> c \<in> set ''0123456789abcdefABCDEF''"

text \<open>
  The rest of a string after its opening quote: the body up to the closing quote, and
  what follows it.  A control character, an unknown escape or a missing closing quote
  is a syntax error (\<open>None\<close>).
\<close>

fun string_body :: "string \<Rightarrow> (string \<times> string) option" where
  "string_body [] = None"
| "string_body (c # cs) =
     (if c = dquote then Some ([], cs)
      else if c = backslash then
        (case cs of
           [] \<Rightarrow> None
         | e # r \<Rightarrow>
             if e = dquote \<or> e = backslash \<or> e \<in> set ''/bfnrt'' then
               map_option (\<lambda>(body, rest). (c # e # body, rest)) (string_body r)
             else if e = CHR ''u'' then
               (case r of
                  h1 # h2 # h3 # h4 # r' \<Rightarrow>
                    if is_hex h1 \<and> is_hex h2 \<and> is_hex h3 \<and> is_hex h4 then
                      map_option (\<lambda>(body, rest). (c # e # h1 # h2 # h3 # h4 # body, rest))
                        (string_body r')
                    else None
                | _ \<Rightarrow> None)
             else None)
      else if (of_char c :: nat) < 32 then None
      else map_option (\<lambda>(body, rest). (c # body, rest)) (string_body cs))"

text \<open>A number: optional minus, integer part without leading zero, fraction, exponent.\<close>

definition digits :: "string \<Rightarrow> (string \<times> string) option" where
  "digits s = (if takeWhile is_digit s = [] then None
               else Some (takeWhile is_digit s, dropWhile is_digit s))"

definition int_part :: "string \<Rightarrow> (string \<times> string) option" where
  "int_part s =
     (case s of
        [] \<Rightarrow> None
      | d # ds \<Rightarrow> if d = CHR ''0'' then Some ([d], ds) else digits s)"

definition frac_part :: "string \<Rightarrow> (string \<times> string) option" where
  "frac_part s =
     (case s of
        [] \<Rightarrow> Some ([], s)
      | c # cs \<Rightarrow>
          if c = CHR ''.'' then map_option (\<lambda>(ds, rest). (c # ds, rest)) (digits cs)
          else Some ([], s))"

definition exp_part :: "string \<Rightarrow> (string \<times> string) option" where
  "exp_part s =
     (case s of
        [] \<Rightarrow> Some ([], s)
      | c # cs \<Rightarrow>
          if c = CHR ''e'' \<or> c = CHR ''E'' then
            (case cs of
               [] \<Rightarrow> None
             | g # gs \<Rightarrow>
                 if g = CHR ''+'' \<or> g = CHR ''-'' then
                   map_option (\<lambda>(ds, rest). (c # g # ds, rest)) (digits gs)
                 else map_option (\<lambda>(ds, rest). (c # ds, rest)) (digits cs))
          else Some ([], s))"

definition number :: "string \<Rightarrow> (string \<times> string) option" where
  "number s =
     (let (sign, s1) = (case s of c # cs \<Rightarrow> if c = CHR ''-'' then ([c], cs) else ([], s) | [] \<Rightarrow> ([], s))
      in case int_part s1 of
           None \<Rightarrow> None
         | Some (i, s2) \<Rightarrow>
             (case frac_part s2 of
                None \<Rightarrow> None
              | Some (f, s3) \<Rightarrow>
                  (case exp_part s3 of
                     None \<Rightarrow> None
                   | Some (e, s4) \<Rightarrow> Some (sign @ i @ f @ e, s4))))"

text \<open>
  A value, the elements of an array after its bracket, the members of an object after
  its brace.  The first argument bounds the number of nested calls; \<open>JSON_parse\<close>
  starts with more than twice the length of the text, and every call but the first
  comes after at least one character has been consumed.
\<close>

fun parse_value :: "nat \<Rightarrow> string \<Rightarrow> (json \<times> string) option"
  and parse_elements :: "nat \<Rightarrow> string \<Rightarrow> (json list \<times> string) option"
  and parse_members :: "nat \<Rightarrow> string \<Rightarrow> ((string \<times> json) list \<times> string) option"
where
  "parse_value 0 s = None"
| "parse_value (Suc n) s =
     (case skip_ws s of
        [] \<Rightarrow> None
      | c # cs \<Rightarrow>
          if c = CHR ''{'' then
            (case skip_ws cs of
               [] \<Rightarrow> None
             | d # ds \<Rightarrow>
                 if d = CHR ''}'' then Some (JObject [], ds)
                 else map_option (\<lambda>(ms, rest). (JObject ms, rest)) (parse_members n (d # ds)))
          else if c = CHR ''['' then
            (case skip_ws cs of
               [] \<Rightarrow> None
             | d # ds \<Rightarrow>
                 if d = CHR '']'' then Some (JArray [], ds)
                 else map_option (\<lambda>(vs, rest). (JArray vs, rest)) (parse_elements n (d # ds)))
          else if c = dquote then
            map_option (\<lambda>(body, rest). (JString body, rest)) (string_body cs)
          else if startsWith (c # cs) ''true'' then Some (JBool True, drop 4 (c # cs))
          else if startsWith (c # cs) ''false'' then Some (JBool False, drop 5 (c # cs))
          else if startsWith (c # cs) ''null'' then Some (JNull, drop 4 (c # cs))
          else map_option (\<lambda>(lexeme, rest). (JNumber lexeme, rest)) (number (c # cs)))"
| "parse_elements 0 s = None"
| "parse_elements (Suc n) s =
     (case parse_value n s of
        None \<Rightarrow> None
      | Some (v, r) \<Rightarrow>
          (case skip_ws r of
             [] \<Rightarrow> None
           | c # cs \<Rightarrow>
               if c = CHR '','' then
                 map_option (\<lambda>(vs, rest). (v # vs, rest)) (parse_elements n cs)
               else if c = CHR '']'' then Some ([v], cs)
               else None))"
| "parse_members 0 s = None"
| "parse_members (Suc n) s =
     (case skip_ws s of
        [] \<Rightarrow> None
      | q # cs \<Rightarrow>
          if q = dquote then
            (case string_body cs of
               None \<Rightarrow> None
             | Some (k, r) \<Rightarrow>
                 (case skip_ws r of
                    [] \<Rightarrow> None
                  | colon # r2 \<Rightarrow>
                      if colon = CHR '':'' then
                        (case parse_value n r2 of
                           None \<Rightarrow> None
                         | Some (v, r3) \<Rightarrow>
                             (case skip_ws r3 of
                                [] \<Rightarrow> None
                              | c # r4 \<Rightarrow>
                                  if c = CHR '','' then
                                    map_option (\<lambda>(ms, rest). ((k, v) # ms, rest))
                                      (parse_members n r4)
                                  else if c = CHR ''}'' then Some ([(k, v)], r4)
                                  else None))
                      else None))
          else None)"

text \<open>
  \<^verbatim>\<open>JSON.parse(text)\<close>: the value of a text that is one JSON value between optional
  white space; a \<^verbatim>\<open>SyntaxError\<close> is thrown for any other text.
\<close>

datatype js_error = SyntaxError

definition JSON_parse :: "string \<Rightarrow> js_error + json" where
  "JSON_parse text =
     (case parse_value (2 * length text + 2) text of
        None \<Rightarrow> Inl SyntaxError
      | Some (v, rest) \<Rightarrow> if skip_ws rest = [] then Inr v else Inl SyntaxError)"

text \<open>
  \<^verbatim>\<open>JSON.stringify(meeting)\<close> for a \<^verbatim>\<open>LiveMeeting\<close>: the keys in the order of the object
  literal of \<^verbatim>\<open>handleStartLiveMeeting\<close> (a spread copy and a parsed text keep that
  order), no white space, strings quoted with the escapes of \<^verbatim>\<open>JSON.stringify\<close>, the
  timestamp in decimal.
\<close>

fun join_with :: "string \<Rightarrow> string list \<Rightarrow> string" where
  "join_with sep [] = []"
| "join_with sep [x] = x"
| "join_with sep (x # y # ys) = x @ sep @ join_with sep (y # ys)"

fun JSON_print :: "json \<Rightarrow> string" where
  "JSON_print JNull = ''null''"
| "JSON_print (JBool b) = (if b then ''true'' else ''false'')"
| "JSON_print (JNumber lexeme) = lexeme"
| "JSON_print (JString body) = dquote # body @ [dquote]"
| "JSON_print (JArray vs) = ''['' @ join_with '','' (map JSON_print vs) @ '']''"
| "JSON_print (JObject ms) =
     ''{'' @ join_with '','' (map (\<lambda>m. dquote # fst m @ [dquote] @ '':'' @ JSON_print (snd m)) ms) @ ''}''"

definition hex_digit :: "nat \<Rightarrow> char" where
  "hex_digit k = (if k < 10 then char_of (48 + k) else char_of (87 + k))"

definition escape_char :: "char \<Rightarrow> string" where
  "escape_char c =
     (if c = dquote then [backslash, dquote]
      else if c = backslash then [backslash, backslash]
      else if c = CHR 0x08 then [backslash, CHR ''b'']
      else if c = CHR 0x0C then [backslash, CHR ''f'']
      else if c = CHR 0x0A then [backslash, CHR ''n'']
      else if c = CHR 0x0D then [backslash, CHR ''r'']
      else if c = CHR 0x09 then [backslash, CHR ''t'']
      else if (of_char c :: nat) < 32 then
        [backslash, CHR ''u'', CHR ''0'', CHR ''0'',
         hex_digit (of_char c div 16), hex_digit (of_char c mod 16)]
      else [c])"

definition quote :: "string \<Rightarrow> json" where
  "quote s = JString (concat (map escape_char s))"

function show_digits :: "int \<Rightarrow> string" where
  "show_digits i =
     (if i < 10 then [char_of (48 + i)]
      else show_digits (i div 10) @ [char_of (48 + i mod 10)])"
  by pat_completeness auto
termination
  by (relation "measure nat") auto

declare show_digits.simps [simp del]

definition show_int :: "int \<Rightarrow> string" where
  "show_int i = (if i < 0 then CHR ''-'' # show_digits (- i) else show_digits i)"

definition toJSON :: "LiveMeeting \<Rightarrow> json" where
  "toJSON m =
     JObject
       [(''id'', quote (mid m)),
        (''hostId'', quote (hostId m)),
        (''hostName'', quote (hostName m)),
        (''topic'', quote (topic m)),
        (''startTime'', JNumber (show_int (startTime m))),
        (''isActive'', JBool (isActive m)),
        (''participants'', JArray (map quote (participants m)))]"

definition JSON_stringify :: "LiveMeeting \<Rightarrow> string" where
  "JSON_stringify m = JSON_print (toJSON m)"

text \<open>
  Auxiliary notions for the proof that a serialised meeting parses back: the characters
  that can follow a value in such a text, keys without escapes, the text of one member
  of an object, and values that parse with any fuel from \<open>n\<close> on.
\<close>

definition follows_number :: "char \<Rightarrow> bool" where
  "follows_number c \<longleftrightarrow> c = CHR '','' \<or> c = CHR ''}'' \<or> c = CHR '']''"

definition plain_key :: "string \<Rightarrow> bool" where
  "plain_key k \<longleftrightarrow> (\<forall>c \<in> set k. c \<noteq> dquote \<and> c \<noteq> backslash \<and> \<not> (of_char c :: nat) < 32)"

definition member_text :: "string \<times> json \<Rightarrow> string" where
  "member_text m = dquote # fst m @ [dquote] @ '':'' @ JSON_print (snd m)"

definition parses_in :: "nat \<Rightarrow> json \<Rightarrow> bool" where
  "parses_in n v \<longleftrightarrow>
     (\<forall>f c t. n \<le> f \<longrightarrow> follows_number c \<longrightarrow>
        parse_value f (JSON_print v @ c # t) = Some (v, c # t))"

section \<open>Live meeting (App and MeetingRoom)\<close>

text \<open>
  \<^verbatim>\<open>checkMeeting\<close>, the body of the polling effect of \<^verbatim>\<open>App\<close>.  The argument is the
  content of \<^verbatim>\<open>localStorage\<close>.  The result is the exception that leaves the function
  (there is no \<^verbatim>\<open>try\<close> around \<^verbatim>\<open>JSON.parse\<close>) or the value passed to
  \<^verbatim>\<open>setLiveMeeting\<close>: \<open>JNull\<close> is \<^verbatim>\<open>null\<close>, and a parsed value is stored as it is, with
  no check of its shape.  \<^verbatim>\<open>if (stored)\<close> is false for \<^verbatim>\<open>null\<close> and for the empty string.
\<close>

definition MEETING_KEY :: string where
  "MEETING_KEY = ''devflow_live_meeting''"

definition checkMeeting :: "storage \<Rightarrow> js_error + json" where
  "checkMeeting st =
     (case st MEETING_KEY of
        None \<Rightarrow> Inr JNull
      | Some stored \<Rightarrow>
          if stored \<noteq> [] then
            (case JSON_parse stored of Inl e \<Rightarrow> Inl e | Inr v \<Rightarrow> Inr v)
          else Inr JNull)"

text \<open>
  The \<^verbatim>\<open>liveMeeting\<close> cell of a polling context after one execution of \<^verbatim>\<open>checkMeeting\<close>,
  as a JavaScript value: when the execution throws, the cell is not written.
\<close>

definition pollStep :: "storage \<Rightarrow> json \<Rightarrow> json" where
  "pollStep st cell = (case checkMeeting st of Inl e \<Rightarrow> cell | Inr v \<Rightarrow> v)"

text \<open>
  The three meeting handlers of \<^verbatim>\<open>App\<close>, on well-typed state (\<^verbatim>\<open>LiveMeeting | null\<close>).
  \<open>rnd\<close> and \<open>now\<close> are \<^verbatim>\<open>Math.random().toString(36)\<close> and \<^verbatim>\<open>Date.now()\<close>.  In
  \<^verbatim>\<open>handleJoinLiveMeeting\<close> the \<^verbatim>\<open>push\<close> extends the participants array, and the updated
  object replaces the state and is written to the store.  (The array is shared by the
  spread copy and the object it was copied from, so a call made before the next render
  sees the pushed name as well as one made after it.)
\<close>

definition handleStartLiveMeeting ::
  "User option \<Rightarrow> string \<Rightarrow> int \<Rightarrow> string \<Rightarrow> App \<Rightarrow> App \<times> effect list" where
  "handleStartLiveMeeting user rnd now tp s =
     (case user of
        None \<Rightarrow> (s, [])
      | Some u \<Rightarrow>
          (let meeting =
                 \<lparr>mid = randomId rnd, hostId = uid u, hostName = name u, topic = tp,
                  startTime = now, isActive = True, participants = [name u]\<rparr>
           in (s\<lparr>liveMeeting := Some meeting\<rparr>,
               [SetItem MEETING_KEY (JSON_stringify meeting)])))"

definition handleJoinLiveMeeting :: "User option \<Rightarrow> App \<Rightarrow> App \<times> effect list" where
  "handleJoinLiveMeeting user s =
     (case user of
        None \<Rightarrow> (s, [])
      | Some u \<Rightarrow>
          (case liveMeeting s of
             None \<Rightarrow> (s, [])
           | Some m \<Rightarrow>
               if name u \<notin> set (participants m) then
                 (let updatedMeeting = m\<lparr>participants := participants m @ [name u]\<rparr>
                  in (s\<lparr>liveMeeting := Some updatedMeeting\<rparr>,
                      [SetItem MEETING_KEY (JSON_stringify updatedMeeting)]))
               else (s, [])))"

definition handleStopLiveMeeting :: "App \<Rightarrow> App \<times> effect list" where
  "handleStopLiveMeeting s = (s\<lparr>liveMeeting := None\<rparr>, [RemoveItem MEETING_KEY])"

text \<open>
  The state of \<^verbatim>\<open>MeetingRoom\<close> that \<^verbatim>\<open>handleStartMeeting\<close> reads and writes.  A
  \<^verbatim>\<open>MediaStream\<close> is an opaque handle; only its presence is tested.
\<close>

datatype View = Lobby | Live | Summary

datatype MediaStream = MediaStream

record MeetingRoom =
  view :: View
  error :: "string option"
  meetingTopic :: string
  stream :: "MediaStream option"

text \<open>
  \<^verbatim>\<open>s.trim()\<close>: the white space and line terminators of ECMAScript in the Latin-1
  range (tab, line feed, vertical tab, form feed, carriage return, space, no-break
  space) are removed at both ends.
\<close>

definition isWhiteSpace :: "char \<Rightarrow> bool" where
  "isWhiteSpace c \<longleftrightarrow> (of_char c :: nat) \<in> {9, 10, 11, 12, 13, 32, 160}"

definition trim :: "string \<Rightarrow> string" where
  "trim s = rev (dropWhile isWhiteSpace (rev (dropWhile isWhiteSpace s)))"

text \<open>\<^verbatim>\<open>isHost\<close> is \<^verbatim>\<open>user?.role === 'ADMIN' || user?.role === 'MANAGER'\<close>.\<close>

definition isHost :: "User option \<Rightarrow> bool" where
  "isHost user \<longleftrightarrow> map_option role user = Some ADMIN \<or> map_option role user = Some MANAGER"

text \<open>
  \<^verbatim>\<open>handleStartMeeting\<close> of \<^verbatim>\<open>MeetingRoom\<close>, up to \<^verbatim>\<open>setView('Live')\<close>; the connection to
  the audio service that follows touches neither \<^verbatim>\<open>liveMeeting\<close> nor the store.
  \<^verbatim>\<open>liveMeeting\<close> is the prop passed down by \<^verbatim>\<open>App\<close>, its own state cell.
\<close>

definition handleStartMeeting ::
  "User option \<Rightarrow> string \<Rightarrow> int \<Rightarrow> MeetingRoom \<Rightarrow> App \<Rightarrow> MeetingRoom \<times> App \<times> effect list" where
  "handleStartMeeting user rnd now room s =
     (if user = None then (room, s, [])
      else if stream room = None then
        (room\<lparr>error := Some ''Camera must be enabled before joining the secure uplink.''\<rparr>, s, [])
      else
        (let isMeetingActive = (case liveMeeting s of None \<Rightarrow> False | Some m \<Rightarrow> isActive m);
             shouldStartNew = (isHost user \<and> \<not> isMeetingActive)
         in if shouldStartNew then
              if trim (meetingTopic room) = [] then
                (room\<lparr>error := Some ''Please define a meeting topic.''\<rparr>, s, [])
              else
                (case handleStartLiveMeeting user rnd now (meetingTopic room) s of
                   (s', es) \<Rightarrow> (room\<lparr>view := Live\<rparr>, s', es))
            else
              (case handleJoinLiveMeeting user s of
                 (s', es) \<Rightarrow> (room\<lparr>view := Live\<rparr>, s', es))))"

text \<open>Rooms, a meeting and stores used in the examples below.\<close>

definition lobby :: MeetingRoom where
  "lobby = \<lparr>view = Lobby, error = None, meetingTopic = ''Sprint Review'', stream = Some MediaStream\<rparr>"


definition blankTopic :: MeetingRoom where
  "blankTopic = \<lparr>view = Lobby, error = None, meetingTopic = ''  '', stream = Some MediaStream\<rparr>"

definition sampleMeeting :: LiveMeeting where
  "sampleMeeting =
     \<lparr>mid = ''k2j4h5g6f'', hostId = ''u2'', hostName = ''Sarah Manager'',
      topic = ''Sprint Review'', startTime = 1700000000000, isActive = True,
      participants = [''Sarah Manager'']\<rparr>"

definition meetingState :: App where
  "meetingState = (initialApp sampleClock)\<lparr>liveMeeting := Some sampleMeeting\<rparr>"

definition corruptStore :: storage where
  "corruptStore = [MEETING_KEY \<mapsto> ''[object Object]'']"

definition wrongShapeStore :: storage where
  "wrongShapeStore = [MEETING_KEY \<mapsto> ''{}'']"

definition liveStore :: storage where
  "liveStore = [MEETING_KEY \<mapsto> JSON_stringify sampleMeeting]"

text \<open>
  A record in which one name stands twice, the store that holds it and a context that
  has adopted it; and the sample meeting after the employee has joined.
\<close>

definition dupMeeting :: LiveMeeting where
  "dupMeeting =
     sampleMeeting\<lparr>participants := [''Sarah Manager'', ''Mike Developer'', ''Mike Developer'']\<rparr>"

definition dupStore :: storage where
  "dupStore = [MEETING_KEY \<mapsto> JSON_stringify dupMeeting]"

definition dupState :: App where
  "dupState = (initialApp sampleClock)\<lparr>liveMeeting := Some dupMeeting\<rparr>"

definition joinedMeeting :: LiveMeeting where
  "joinedMeeting = sampleMeeting\<lparr>participants := [''Sarah Manager'', ''Mike Developer'']\<rparr>"

section \<open>Verified properties\<close>

subsection \<open>Deleting a task\<close>

text \<open>
  Claim C3.  When the current user's role is EMPLOYEE, \<^verbatim>\<open>handleDeleteTask\<close> leaves the
  whole component state (so the task store) as it was, and the only thing it does is to
  show the "clearance insufficient" notice: the confirmation dialog is not opened and
  the removal is not reached, whatever the task id, the store and the answer the dialog
  would have given.
\<close>

theorem deleteTask_employee_denied:
  assumes "role u = EMPLOYEE"
  shows "handleDeleteTask (Some u) answer taskId s =
           (s, [Alert ''Clearance Level Insufficient: Cannot delete objectives.''])"
  using assms by (simp add: handleDeleteTask_def)

theorem deleteTask_employee_denied_witness:
  "role mockEmployee = EMPLOYEE \<and>
   handleDeleteTask (Some mockEmployee) (\<lambda>m. True) ''t2'' (initialApp sampleClock) =
     (initialApp sampleClock,
      [Alert ''Clearance Level Insufficient: Cannot delete objectives.''])"
proof -
  have r: "role mockEmployee = EMPLOYEE"
    by (simp add: mockEmployee_def)
  show ?thesis
    using r deleteTask_employee_denied [OF r, of "\<lambda>m. True" "''t2''" "initialApp sampleClock"]
    by simp
qed


subsection \<open>Updating a task\<close>

text \<open>
  Claim C7.  \<^verbatim>\<open>updateTask(id, patch)\<close> is \<^verbatim>\<open>handleSaveTask\<close> while the form is open on a
  task \<open>e\<close> with that id.  The store keeps its length and order; at every position, a
  task whose id is that of \<open>e\<close> takes the nine fields of the patch and keeps its id,
  projectId and createdAt, and a task with another id is left as it was; when no task
  has the id, the store is the same list as before.  Projects and the active project
  are not touched.
\<close>

theorem updateTask_merges_patch:
  assumes "taskToEdit s = Some e"
  shows "length (tasks (handleSaveTask rnd now patch s)) = length (tasks s) \<and>
    (\<forall>i<length (tasks s).
       (tid (tasks s ! i) = tid e \<longrightarrow>
          title (tasks (handleSaveTask rnd now patch s) ! i) = title patch \<and>
          description (tasks (handleSaveTask rnd now patch s) ! i) = description patch \<and>
          status (tasks (handleSaveTask rnd now patch s) ! i) = status patch \<and>
          category (tasks (handleSaveTask rnd now patch s) ! i) = category patch \<and>
          assignee (tasks (handleSaveTask rnd now patch s) ! i) = assignee patch \<and>
          priority (tasks (handleSaveTask rnd now patch s) ! i) = priority patch \<and>
          acceptanceCriteria (tasks (handleSaveTask rnd now patch s) ! i) = acceptanceCriteria patch \<and>
          estimatedHours (tasks (handleSaveTask rnd now patch s) ! i) = estimatedHours patch \<and>
          technicalPlan (tasks (handleSaveTask rnd now patch s) ! i) = technicalPlan patch \<and>
          tid (tasks (handleSaveTask rnd now patch s) ! i) = tid (tasks s ! i) \<and>
          projectId (tasks (handleSaveTask rnd now patch s) ! i) = projectId (tasks s ! i) \<and>
          createdAt (tasks (handleSaveTask rnd now patch s) ! i) = createdAt (tasks s ! i)) \<and>
       (tid (tasks s ! i) \<noteq> tid e \<longrightarrow>
          tasks (handleSaveTask rnd now patch s) ! i = tasks s ! i)) \<and>
    ((\<forall>t \<in> set (tasks s). tid t \<noteq> tid e) \<longrightarrow>
       tasks (handleSaveTask rnd now patch s) = tasks s) \<and>
    projects (handleSaveTask rnd now patch s) = projects s \<and>
    activeProjectId (handleSaveTask rnd now patch s) = activeProjectId s"
proof -
  let ?f = "\<lambda>t. if tid t = tid e then spreadTaskData t patch else t"
  have ts: "tasks (handleSaveTask rnd now patch s) = map ?f (tasks s)"
    using assms by (simp add: handleSaveTask_def)
  have absent: "map ?f (tasks s) = tasks s" if "\<forall>t \<in> set (tasks s). tid t \<noteq> tid e"
    using that by (induction "tasks s") (simp_all add: map_idI)
  have frame: "projects (handleSaveTask rnd now patch s) = projects s \<and>
    activeProjectId (handleSaveTask rnd now patch s) = activeProjectId s"
    using assms by (simp add: handleSaveTask_def)
  show ?thesis
    unfolding ts using absent frame by (simp add: spreadTaskData_def)
qed

theorem updateTask_merges_patch_witness:
  "taskToEdit editState = Some (INITIAL_TASKS sampleClock ! 1) \<and>
   tid (tasks editState ! 1) = tid (INITIAL_TASKS sampleClock ! 1) \<and>
   title (tasks (handleSaveTask ''0.abc'' 5 sampleData editState) ! 1) = ''Rate limiter'' \<and>
   tid (tasks (handleSaveTask ''0.abc'' 5 sampleData editState) ! 1) = ''t2'' \<and>
   projectId (tasks (handleSaveTask ''0.abc'' 5 sampleData editState) ! 1) = ''p1'' \<and>
   createdAt (tasks (handleSaveTask ''0.abc'' 5 sampleData editState) ! 1) = 1699900000000 \<and>
   tid (tasks editState ! 0) \<noteq> tid (INITIAL_TASKS sampleClock ! 1) \<and>
   tasks (handleSaveTask ''0.abc'' 5 sampleData editState) ! 0 = tasks editState ! 0 \<and>
   taskToEdit ghostEditState = Some ghostTask \<and>
   tid ghostTask \<notin> tid ` set (tasks ghostEditState) \<and>
   tasks (handleSaveTask ''0.abc'' 5 sampleData ghostEditState) = tasks ghostEditState"
proof -
  have e1: "taskToEdit editState = Some (INITIAL_TASKS sampleClock ! 1)"
    by (simp add: editState_def openEditTaskModal_def)
  have e2: "taskToEdit ghostEditState = Some ghostTask"
    by (simp add: ghostEditState_def openEditTaskModal_def)
  have ts: "tasks editState = INITIAL_TASKS sampleClock" "tasks ghostEditState = INITIAL_TASKS sampleClock"
    by (simp_all add: editState_def ghostEditState_def openEditTaskModal_def initialApp_def)
  have ids: "map tid (INITIAL_TASKS sampleClock) = [''t1'', ''t2'', ''t3'', ''t4'', ''t5'', ''t6'', ''t7'', ''t8'']"
    by (simp add: INITIAL_TASKS_def)
  have n: "length (INITIAL_TASKS sampleClock) = 8"
    by (simp add: INITIAL_TASKS_def)
  have i0: "tid (INITIAL_TASKS sampleClock ! 0) = ''t1''" and i1: "tid (INITIAL_TASKS sampleClock ! 1) = ''t2''"
    and p1: "projectId (INITIAL_TASKS sampleClock ! 1) = ''p1''"
    and c1: "createdAt (INITIAL_TASKS sampleClock ! 1) = 1699900000000"
    by (simp_all add: INITIAL_TASKS_def sampleClock_def)
  note i1' = i1 [unfolded One_nat_def] p1 [unfolded One_nat_def] c1 [unfolded One_nat_def]
  have g: "tid ghostTask = ''zzz''"
    by (simp add: ghostTask_def newTask_def)
  have fresh: "\<forall>t \<in> set (tasks ghostEditState). tid t \<noteq> tid ghostTask"
    unfolding ts g by (simp add: INITIAL_TASKS_def)
  note a = updateTask_merges_patch [OF e1, of "''0.abc''" 5 sampleData]
  note b = updateTask_merges_patch [OF e2, of "''0.abc''" 5 sampleData]
  note ai = a [THEN conjunct2, THEN conjunct1, THEN spec]
  from ai [of 0] have a0: "tasks (handleSaveTask ''0.abc'' 5 sampleData editState) ! 0 = tasks editState ! 0"
    by (simp add: ts n i0 i1')
  from ai [of 1] have a1: "title (tasks (handleSaveTask ''0.abc'' 5 sampleData editState) ! 1) = title sampleData \<and>
     tid (tasks (handleSaveTask ''0.abc'' 5 sampleData editState) ! 1) = tid (tasks editState ! 1) \<and>
     projectId (tasks (handleSaveTask ''0.abc'' 5 sampleData editState) ! 1) = projectId (tasks editState ! 1) \<and>
     createdAt (tasks (handleSaveTask ''0.abc'' 5 sampleData editState) ! 1) = createdAt (tasks editState ! 1)"
    by (simp add: ts n)
  from b fresh have b0: "tasks (handleSaveTask ''0.abc'' 5 sampleData ghostEditState) = tasks ghostEditState"
    by blast
  from fresh have nin: "tid ghostTask \<notin> tid ` set (tasks ghostEditState)"
    by auto
  show ?thesis
    using e1 e2 a0 a1 b0 nin by (simp add: ts i0 i1' sampleData_def)
qed


subsection \<open>Creating a task\<close>

text \<open>
  Claim C6, as stated, promises an id different from every id in the store.  The id is
  a random string that is never compared with the ids in use: when
  \<^verbatim>\<open>Math.random()\<close> returns 0.5 for two creations, both tasks get the id \<open>i\<close>, and a
  lookup by that id finds the older task, not the fields just submitted.
\<close>

theorem createTask_fresh_id_counterexample:
  "tid (last (tasks (handleSaveTask ''0.i'' 1700000000002 otherData collisionState)))
     \<in> tid ` set (tasks collisionState) \<and>
   map_option title
     (findTask ''i'' (tasks (handleSaveTask ''0.i'' 1700000000002 otherData collisionState))) =
     Some ''Rate limiter'' \<and>
   title otherData = ''Audit log''"
  by (simp add: collisionState_def handleSaveTask_def initialApp_def INITIAL_TASKS_def
      INITIAL_PROJECTS_def randomId_def substr_def newTask_def sampleData_def otherData_def findTask_def)



lemma find_snoc_first:
  "\<forall>u \<in> set xs. \<not> P u \<Longrightarrow> P x \<Longrightarrow> find P (xs @ [x]) = Some x"
  by (induction xs) auto

text \<open>
  Claim C6, amended.  With the form open on no task, \<^verbatim>\<open>handleSaveTask\<close> appends one
  task to the store; its id is the random string (not checked against the ids in use),
  its projectId is the active project id at the call, its createdAt is the clock
  reading of the call, and its other fields are the submitted ones.  When that id
  differs from every id already in the store, a lookup by it yields the new task.
\<close>

theorem createTask_appends:
  assumes "taskToEdit s = None"
  shows "\<exists>t. tasks (handleSaveTask rnd now d s) = tasks s @ [t] \<and>
    tid t = randomId rnd \<and> projectId t = activeProjectId s \<and> createdAt t = now \<and>
    title t = title d \<and> description t = description d \<and> status t = status d \<and>
    category t = category d \<and> assignee t = assignee d \<and> priority t = priority d \<and>
    acceptanceCriteria t = acceptanceCriteria d \<and> estimatedHours t = estimatedHours d \<and>
    technicalPlan t = technicalPlan d \<and>
    ((\<forall>u \<in> set (tasks s). tid u \<noteq> randomId rnd) \<longrightarrow>
       findTask (randomId rnd) (tasks (handleSaveTask rnd now d s)) = Some t)"
proof -
  let ?t = "newTask d (randomId rnd) (activeProjectId s) now"
  have ts: "tasks (handleSaveTask rnd now d s) = tasks s @ [?t]"
    using assms by (simp add: handleSaveTask_def)
  have look: "findTask (randomId rnd) (tasks s @ [?t]) = Some ?t"
    if "\<forall>u \<in> set (tasks s). tid u \<noteq> randomId rnd"
    unfolding findTask_def using that by (intro find_snoc_first) (simp_all add: newTask_def)
  show ?thesis
    unfolding ts using look by (intro exI [of _ ?t]) (simp add: newTask_def)
qed

theorem createTask_appends_witness:
  "taskToEdit (initialApp sampleClock) = None \<and>
   ''abcdefghi'' \<notin> tid ` set (tasks (initialApp sampleClock)) \<and>
   (\<exists>t. tasks (handleSaveTask ''0.abcdefghijk'' 1700000000001 sampleData (initialApp sampleClock)) =
           tasks (initialApp sampleClock) @ [t] \<and>
        tid t = ''abcdefghi'' \<and> projectId t = ''p1'' \<and> createdAt t = 1700000000001 \<and>
        title t = ''Rate limiter'' \<and>
        findTask ''abcdefghi''
          (tasks (handleSaveTask ''0.abcdefghijk'' 1700000000001 sampleData (initialApp sampleClock))) =
          Some t)"
proof -
  have e: "taskToEdit (initialApp sampleClock) = None"
    by (simp add: initialApp_def)
  have r: "randomId ''0.abcdefghijk'' = ''abcdefghi''"
    by (simp add: randomId_def substr_def)
  have fresh: "\<forall>u \<in> set (tasks (initialApp sampleClock)). tid u \<noteq> ''abcdefghi''"
    by (simp add: initialApp_def INITIAL_TASKS_def)
  have act: "activeProjectId (initialApp sampleClock) = ''p1''"
    by (simp add: initialApp_def INITIAL_PROJECTS_def)
  from createTask_appends [OF e, of "''0.abcdefghijk''" 1700000000001 sampleData] fresh
  obtain t where t: "tasks (handleSaveTask ''0.abcdefghijk'' 1700000000001 sampleData (initialApp sampleClock)) =
           tasks (initialApp sampleClock) @ [t]"
      "tid t = ''abcdefghi''" "projectId t = ''p1''" "createdAt t = 1700000000001"
      "title t = title sampleData"
      "findTask ''abcdefghi''
          (tasks (handleSaveTask ''0.abcdefghijk'' 1700000000001 sampleData (initialApp sampleClock))) =
          Some t"
    unfolding r act by blast
  from fresh have nin: "''abcdefghi'' \<notin> tid ` set (tasks (initialApp sampleClock))"
    by auto
  show ?thesis
    using e nin t by (auto simp: sampleData_def)
qed


subsection \<open>Referential integrity\<close>

lemma spreadTaskData_projectId: "projectId (spreadTaskData t d) = projectId t"
  by (simp add: spreadTaskData_def)

lemma invariant_initial: "invariant (initialApp clock)"
  by (simp add: invariant_def initialApp_def INITIAL_PROJECTS_def INITIAL_TASKS_def)

lemma invariant_step: "invariant s \<Longrightarrow> invariant (step e s)"
proof (cases e)
  case (CreateProject rnd nm desc)
  assume "invariant s"
  then show ?thesis
    unfolding CreateProject by (auto simp: invariant_def handleCreateProject_def Let_def)
next
  case NewTask
  assume "invariant s"
  then show ?thesis
    unfolding NewTask by (simp add: invariant_def openNewTaskModal_def)
next
  case (EditTask t)
  assume "invariant s"
  then show ?thesis
    unfolding EditTask by (simp add: invariant_def openEditTaskModal_def)
next
  case (SaveTask rnd now d)
  assume "invariant s"
  then show ?thesis
    unfolding SaveTask
    by (cases "taskToEdit s")
       (auto simp: invariant_def handleSaveTask_def newTask_def spreadTaskData_projectId)
next
  case (DeleteTask user answer taskId)
  assume "invariant s"
  then show ?thesis
    unfolding DeleteTask by (auto simp: invariant_def handleDeleteTask_def)
next
  case (StatusChange taskId st)
  assume "invariant s"
  then show ?thesis
    unfolding StatusChange by (auto simp: invariant_def handleStatusChange_def)
next
  case (SelectProject k)
  assume "invariant s"
  then show ?thesis
    unfolding SelectProject by (auto simp: invariant_def)
next
  case (NavigateToTask k)
  assume "invariant s"
  then show ?thesis
    unfolding NavigateToTask by (auto simp: invariant_def)
qed

lemma invariant_run: "invariant s \<Longrightarrow> invariant (run es s)"
  by (induction es arbitrary: s) (simp_all add: invariant_step)

text \<open>
  Claim C9.  After any sequence of project creations, task creations, task updates and
  task deletions (and of status changes and project selections) from the initial state,
  every task of the store has the id of a project of the project list as its
  projectId.
\<close>

theorem projectId_references_project:
  "\<forall>t \<in> set (tasks (run es (initialApp clock))).
     \<exists>p \<in> set (projects (run es (initialApp clock))). pid p = projectId t"
  using invariant_run [OF invariant_initial, of es clock]
  unfolding invariant_def image_iff by metis

theorem projectId_references_project_witness:
  "newTask sampleData ''abcdefghi'' ''k3x9q'' 1700000000001
     \<in> set (tasks (run sampleEvents (initialApp sampleClock))) \<and>
   (\<exists>p \<in> set (projects (run sampleEvents (initialApp sampleClock))).
      pid p = projectId (newTask sampleData ''abcdefghi'' ''k3x9q'' 1700000000001)) \<and>
   map pid (projects (run sampleEvents (initialApp sampleClock))) =
     [''p1'', ''p2'', ''p3'', ''k3x9q''] \<and>
   map projectId (tasks (run sampleEvents (initialApp sampleClock))) =
     [''p1'', ''p1'', ''p1'', ''p2'', ''p2'', ''p3'', ''p3'', ''k3x9q'']"
proof -
  have nt: "\<And>d i p n. tid (newTask d i p n) = i"
    by (simp add: newTask_def)
  have ts: "tasks (run sampleEvents (initialApp sampleClock)) =
      map (\<lambda>t. if tid t = ''t2'' then spreadTaskData t otherData
                else if tid t = ''t4'' then t\<lparr>status := DONE\<rparr> else t)
        (tl (INITIAL_TASKS sampleClock)) @
      [newTask sampleData ''abcdefghi'' ''k3x9q'' 1700000000001]"
    by (simp add: sampleEvents_def initialApp_def INITIAL_TASKS_def INITIAL_PROJECTS_def
        handleCreateProject_def openNewTaskModal_def openEditTaskModal_def handleSaveTask_def
        handleDeleteTask_def handleStatusChange_def randomId_def substr_def mockAdmin_def
        spreadTaskData_def nt)
  have ps: "map pid (projects (run sampleEvents (initialApp sampleClock))) =
     [''p1'', ''p2'', ''p3'', ''k3x9q'']"
    by (simp add: sampleEvents_def initialApp_def INITIAL_PROJECTS_def
        handleCreateProject_def openNewTaskModal_def openEditTaskModal_def handleSaveTask_def
        handleDeleteTask_def handleStatusChange_def randomId_def substr_def mockAdmin_def)
  have mem: "newTask sampleData ''abcdefghi'' ''k3x9q'' 1700000000001
     \<in> set (tasks (run sampleEvents (initialApp sampleClock)))"
    unfolding ts by simp
  have pj: "map projectId (tasks (run sampleEvents (initialApp sampleClock))) =
     [''p1'', ''p1'', ''p1'', ''p2'', ''p2'', ''p3'', ''p3'', ''k3x9q'']"
    unfolding ts by (simp add: INITIAL_TASKS_def spreadTaskData_def newTask_def)
  from projectId_references_project [of sampleEvents sampleClock, rule_format, OF mem]
  show ?thesis
    using mem ps pj by simp
qed


subsection \<open>Drag eligibility\<close>

lemma split_first: "\<exists>ws. split sep s = takeWhile (\<lambda>c. c \<noteq> sep) s # ws"
  by (induction s) auto

lemma startsWith_iff: "startsWith s p \<longleftrightarrow> (\<exists>r. s = p @ r)"
  by (induction s p rule: startsWith.induct) auto

lemma str_includes_iff: "str_includes h n \<longleftrightarrow> (\<exists>p s. h = p @ n @ s)"
proof (induction h)
  case Nil
  then show ?case by simp
next
  case (Cons c cs)
  have "(\<exists>p s. c # cs = p @ n @ s) \<longleftrightarrow> (\<exists>s. c # cs = n @ s) \<or> (\<exists>p s. cs = p @ n @ s)"
  proof
    assume "\<exists>p s. c # cs = p @ n @ s"
    then obtain p s where ps: "c # cs = p @ n @ s" by blast
    show "(\<exists>s. c # cs = n @ s) \<or> (\<exists>p s. cs = p @ n @ s)"
    proof (cases p)
      case Nil
      with ps show ?thesis by auto
    next
      case (Cons x p')
      with ps have "cs = p' @ n @ s" by simp
      then show ?thesis by blast
    qed
  next
    assume "(\<exists>s. c # cs = n @ s) \<or> (\<exists>p s. cs = p @ n @ s)"
    then show "\<exists>p s. c # cs = p @ n @ s"
    proof
      assume "\<exists>s. c # cs = n @ s"
      then obtain s where "c # cs = [] @ n @ s" by auto
      then show ?thesis by blast
    next
      assume "\<exists>p s. cs = p @ n @ s"
      then obtain p s where "cs = p @ n @ s" by blast
      then have "c # cs = (c # p) @ n @ s" by simp
      then show ?thesis by blast
    qed
  qed
  with Cons show ?case by (simp add: startsWith_iff)
qed

text \<open>
  Claim C1, as stated, makes the match symmetric.  The board tests one direction only:
  for the employee Sarah-Jane Smith and a task assigned to \<open>Sarah\<close>, the assignee
  string is a substring of the first name token, so the stated match holds, and the task
  is not draggable.
\<close>

theorem canDrag_symmetric_match_counterexample:
  "role sarahJane = EMPLOYEE \<and>
   spec_fuzzyMatch sarahJane (INITIAL_TASKS sampleClock ! 0) \<and>
   \<not> canDrag (Some sarahJane) (INITIAL_TASKS sampleClock ! 0)"
  by code_simp


text \<open>
  Claim C1, amended.  For a logged-in EMPLOYEE and any task, \<^verbatim>\<open>canDrag\<close> holds exactly
  when the user's name is not empty and the first name token (the name up to its first
  space), lower-cased, is a substring of the lower-cased assignee string.  Users with
  role ADMIN or MANAGER are drag-eligible for every task.
\<close>

theorem canDrag_employee_iff_first_name_in_assignee:
  "(role u = EMPLOYEE \<longrightarrow>
      (canDrag (Some u) task \<longleftrightarrow>
         name u \<noteq> [] \<and>
         (\<exists>p s. toLowerCase (assignee task) =
            p @ toLowerCase (takeWhile (\<lambda>c. c \<noteq> CHR '' '') (name u)) @ s))) \<and>
   (role u = ADMIN \<or> role u = MANAGER \<longrightarrow> canDrag (Some u) task)"
proof -
  obtain ws where "split CHR '' '' (name u) = takeWhile (\<lambda>c. c \<noteq> CHR '' '') (name u) # ws"
    using split_first by blast
  then show ?thesis
    by (auto simp: canDrag_def isAssignee_def str_includes_iff)
qed

theorem canDrag_employee_iff_first_name_in_assignee_witness:
  "role mockEmployee = EMPLOYEE \<and> name mockEmployee \<noteq> [] \<and>
   toLowerCase (assignee (INITIAL_TASKS sampleClock ! 1)) =
     [] @ toLowerCase (takeWhile (\<lambda>c. c \<noteq> CHR '' '') (name mockEmployee)) @ [] \<and>
   canDrag (Some mockEmployee) (INITIAL_TASKS sampleClock ! 1) \<and>
   role mockManager = MANAGER \<and>
   canDrag (Some mockManager) (INITIAL_TASKS sampleClock ! 1)"
proof -
  have r: "role mockEmployee = EMPLOYEE" "name mockEmployee \<noteq> []" "role mockManager = MANAGER"
    by (simp_all add: mockEmployee_def mockManager_def)
  have m: "toLowerCase (assignee (INITIAL_TASKS sampleClock ! 1)) =
     [] @ toLowerCase (takeWhile (\<lambda>c. c \<noteq> CHR '' '') (name mockEmployee)) @ []"
    by (simp add: INITIAL_TASKS_def mockEmployee_def)
  from m have ex: "\<exists>p s. toLowerCase (assignee (INITIAL_TASKS sampleClock ! 1)) =
     p @ toLowerCase (takeWhile (\<lambda>c. c \<noteq> CHR '' '') (name mockEmployee)) @ s"
    by blast
  note t = canDrag_employee_iff_first_name_in_assignee
  from t [of mockEmployee "INITIAL_TASKS sampleClock ! 1"] r ex
  have a: "canDrag (Some mockEmployee) (INITIAL_TASKS sampleClock ! 1)"
    by blast
  from t [of mockManager "INITIAL_TASKS sampleClock ! 1"] r
  have b: "canDrag (Some mockManager) (INITIAL_TASKS sampleClock ! 1)"
    by blast
  show ?thesis
    using r m a b by blast
qed


subsection \<open>A serialised meeting parses back\<close>

text \<open>
  Whatever the strings and the timestamp of a meeting, \<^verbatim>\<open>JSON.parse\<close> accepts the text
  that \<^verbatim>\<open>JSON.stringify\<close> produces for it and returns its tree: the records that
  \<^verbatim>\<open>handleStartLiveMeeting\<close> and \<^verbatim>\<open>handleJoinLiveMeeting\<close> write never make a
  poll throw.
\<close>

lemma hex_digit_is_hex: "k < 16 \<Longrightarrow> is_hex (hex_digit k)"
proof -
  have "\<forall>k \<in> set [0..<16]. is_hex (hex_digit k)"
    by code_simp
  then show "k < 16 \<Longrightarrow> is_hex (hex_digit k)"
    by simp
qed

lemma string_body_escape_char:
  "string_body (escape_char c @ t) =
     map_option (\<lambda>(body, rest). (escape_char c @ body, rest)) (string_body t)"
proof -
  have h: "is_hex (hex_digit (of_char c div 16))" "is_hex (hex_digit (of_char c mod 16))"
    if "(of_char c :: nat) < 32"
    using that by (auto intro!: hex_digit_is_hex)
  have z: "is_hex CHR ''0''"
    by (simp add: is_hex_def)
  show ?thesis
    using h z by (auto simp: escape_char_def dquote_def backslash_def)
qed

lemma string_body_quote:
  "string_body (concat (map escape_char s) @ dquote # rest) =
     Some (concat (map escape_char s), rest)"
  by (induction s) (simp_all add: string_body_escape_char)


lemma digit_chars:
  "map (\<lambda>d. char_of (48 + d)) [0, 1, 2, 3, 4, 5, 6, 7, 8, 9 :: int] = ''0123456789''"
  by code_simp

lemma digit_char:
  assumes "0 \<le> d" and "d < 10"
  shows "is_digit (char_of (48 + d :: int))"
    and "char_of (48 + d :: int) = CHR ''0'' \<longleftrightarrow> d = 0"
proof -
  from assms have "d = 0 \<or> d = 1 \<or> d = 2 \<or> d = 3 \<or> d = 4 \<or> d = 5 \<or> d = 6 \<or> d = 7 \<or> d = 8 \<or> d = 9"
    by arith
  then show "is_digit (char_of (48 + d :: int))"
    and "char_of (48 + d :: int) = CHR ''0'' \<longleftrightarrow> d = 0"
    using digit_chars by (auto simp: is_digit_def)
qed

lemma show_digits_digits: "0 \<le> i \<Longrightarrow> \<forall>c \<in> set (show_digits i). is_digit c"
proof (induction i rule: show_digits.induct)
  case (1 i)
  show ?case
  proof (cases "i < 10")
    case True
    with "1.prems" show ?thesis
      by (subst show_digits.simps) (simp add: digit_char)
  next
    case False
    with "1.prems" have ih: "\<forall>c \<in> set (show_digits (i div 10)). is_digit c"
      by (intro "1.IH") simp_all
    have "is_digit (char_of (48 + i mod 10))"
      by (intro digit_char) simp_all
    with False ih show ?thesis
      by (subst show_digits.simps) simp
  qed
qed

lemma show_digits_nonempty: "show_digits i \<noteq> []"
  by (subst show_digits.simps) simp

lemma show_digits_hd: "0 < i \<Longrightarrow> hd (show_digits i) \<noteq> CHR ''0''"
proof (induction i rule: show_digits.induct)
  case (1 i)
  show ?case
  proof (cases "i < 10")
    case True
    with "1.prems" show ?thesis
      by (subst show_digits.simps) (simp add: digit_char)
  next
    case False
    with "1.prems" have "hd (show_digits (i div 10)) \<noteq> CHR ''0''"
      by (intro "1.IH") simp_all
    with False show ?thesis
      by (subst show_digits.simps) (simp add: show_digits_nonempty)
  qed
qed

lemma show_digits_zero: "show_digits 0 = ''0''"
  by code_simp

lemma follows_number_facts:
  assumes "follows_number c"
  shows "\<not> is_digit c" "c \<noteq> CHR ''.''" "c \<noteq> CHR ''e''" "c \<noteq> CHR ''E''"
  using assms by (auto simp: follows_number_def is_digit_def)

lemma not_digit_minus: "\<not> is_digit CHR ''-''"
  by (simp add: is_digit_def)

lemma number_show_digits:
  assumes "0 \<le> i" and c: "follows_number c"
  shows "int_part (show_digits i @ c # r) = Some (show_digits i, c # r)"
proof (cases "i = 0")
  case True
  then show ?thesis
    by (simp add: show_digits_zero int_part_def)
next
  case False
  with assms have pos: "0 < i" by simp
  obtain d ds where ds: "show_digits i = d # ds"
    using show_digits_nonempty [of i] by (cases "show_digits i") auto
  from show_digits_hd [OF pos] ds have d0: "d \<noteq> CHR ''0''"
    by simp
  from show_digits_digits [OF assms(1)] have all: "\<forall>c \<in> set (show_digits i). is_digit c" .
  then have tw: "takeWhile is_digit (show_digits i @ c # r) = show_digits i"
    and dw: "dropWhile is_digit (show_digits i @ c # r) = c # r"
    by (simp_all add: takeWhile_append2 dropWhile_append2 follows_number_facts [OF c])
  have "int_part (show_digits i @ c # r) = digits (show_digits i @ c # r)"
    using d0 by (simp add: ds int_part_def)
  also have "\<dots> = Some (show_digits i, c # r)"
    unfolding digits_def tw dw using show_digits_nonempty by simp
  finally show ?thesis .
qed

lemma number_show_int:
  assumes c: "follows_number c"
  shows "number (show_int i @ c # r) = Some (show_int i, c # r)"
proof (cases "i < 0")
  case True
  then have "int_part (show_digits (- i) @ c # r) = Some (show_digits (- i), c # r)"
    by (intro number_show_digits c) simp
  with True show ?thesis
    by (simp add: number_def show_int_def frac_part_def exp_part_def follows_number_facts [OF c])
next
  case False
  then have nn: "0 \<le> i" by simp
  obtain d ds where ds: "show_digits i = d # ds"
    using show_digits_nonempty [of i] by (cases "show_digits i") auto
  from show_digits_digits [OF nn] ds have "is_digit d"
    by simp
  then have "d \<noteq> CHR ''-''"
    using not_digit_minus by auto
  moreover have "int_part (d # ds @ c # r) = Some (d # ds, c # r)"
    using number_show_digits [OF nn c, of r] by (simp add: ds)
  ultimately show ?thesis
    using False
    by (simp add: number_def show_int_def ds frac_part_def exp_part_def
        follows_number_facts [OF c])
qed

lemma skip_ws_nonws: "\<not> is_json_ws c \<Longrightarrow> skip_ws (c # cs) = c # cs"
  by (simp add: skip_ws_def)

lemma skip_ws_token:
  "skip_ws (dquote # x) = dquote # x" "skip_ws (CHR ''['' # x) = CHR ''['' # x"
  "skip_ws (CHR '']'' # x) = CHR '']'' # x" "skip_ws (CHR ''{'' # x) = CHR ''{'' # x"
  "skip_ws (CHR ''}'' # x) = CHR ''}'' # x" "skip_ws (CHR '','' # x) = CHR '','' # x"
  "skip_ws (CHR '':'' # x) = CHR '':'' # x" "skip_ws [] = []"
  by (simp_all add: skip_ws_def is_json_ws_def dquote_def)

lemma dquote_facts:
  "\<not> is_json_ws dquote" "dquote \<noteq> CHR ''{''" "dquote \<noteq> CHR ''[''" "dquote \<noteq> CHR '']''"
  "dquote \<noteq> CHR ''}''"
  by (simp_all add: dquote_def is_json_ws_def)

lemma parse_value_string:
  "parse_value (Suc k) (JSON_print (quote p) @ t) = Some (quote p, t)"
  by (simp add: quote_def skip_ws_nonws dquote_facts string_body_quote)

lemma parse_value_bool:
  "parse_value (Suc k) (JSON_print (JBool b) @ t) = Some (JBool b, t)"
  by (simp add: skip_ws_nonws is_json_ws_def dquote_def)

lemma show_int_first:
  "\<exists>d ds. show_int i = d # ds \<and> (d = CHR ''-'' \<or> is_digit d)"
proof (cases "i < 0")
  case True
  then show ?thesis by (simp add: show_int_def)
next
  case False
  then have nn: "0 \<le> i" by simp
  obtain d ds where ds: "show_digits i = d # ds"
    using show_digits_nonempty [of i] by (cases "show_digits i") auto
  with show_digits_digits [OF nn] have "is_digit d" by simp
  with False ds show ?thesis by (simp add: show_int_def)
qed

lemma parse_value_number:
  assumes c: "follows_number c"
  shows "parse_value (Suc k) (JSON_print (JNumber (show_int i)) @ c # r) =
     Some (JNumber (show_int i), c # r)"
proof -
  obtain d ds where ds: "show_int i = d # ds" and d: "d = CHR ''-'' \<or> is_digit d"
    using show_int_first by blast
  from d have nw: "\<not> is_json_ws d" and nb: "d \<noteq> CHR ''{''" "d \<noteq> CHR ''[''" "d \<noteq> dquote"
    "d \<noteq> CHR ''t''" "d \<noteq> CHR ''f''" "d \<noteq> CHR ''n''"
    by (auto simp: is_digit_def is_json_ws_def dquote_def)
  have n: "number (d # ds @ c # r) = Some (d # ds, c # r)"
    using number_show_int [OF c, of i r] by (simp add: ds)
  show ?thesis
    using nb n by (simp add: ds skip_ws_nonws [OF nw])
qed

lemma parse_elements_strings:
  "parse_elements (Suc (Suc (length ps + n)))
     (join_with '','' (map (\<lambda>x. JSON_print (quote x)) (p # ps)) @ CHR '']'' # t) =
   Some (map quote (p # ps), t)"
proof (induction ps arbitrary: p n)
  case Nil
  show ?case
    by (simp add: parse_value_string skip_ws_nonws is_json_ws_def
        del: parse_value.simps JSON_print.simps)
next
  case (Cons q qs)
  have "parse_elements (Suc (Suc (length (q # qs) + n)))
     (JSON_print (quote p) @ CHR '','' #
        join_with '','' (map (\<lambda>x. JSON_print (quote x)) (q # qs)) @ CHR '']'' # t) =
     map_option (\<lambda>(vs, rest). (quote p # vs, rest))
       (parse_elements (Suc (Suc (length qs + n)))
          (join_with '','' (map (\<lambda>x. JSON_print (quote x)) (q # qs)) @ CHR '']'' # t))"
    by (simp add: parse_value_string skip_ws_nonws is_json_ws_def
        del: parse_value.simps JSON_print.simps)
  with Cons.IH [where p = q and n = n] show ?case
    by (simp del: parse_value.simps parse_elements.simps parse_members.simps JSON_print.simps)
qed

lemma JSON_print_first_quote: "\<exists>cs. JSON_print (quote x) = dquote # cs"
  by (simp add: quote_def)

lemma parse_value_array:
  "parse_value (Suc (Suc (Suc (length ps + n)))) (JSON_print (JArray (map quote ps)) @ t) =
     Some (JArray (map quote ps), t)"
proof (cases ps)
  case Nil
  then show ?thesis
    by (simp add: skip_ws_nonws is_json_ws_def)
next
  case (Cons p qs)
  obtain cs where cs: "JSON_print (quote p) = dquote # cs"
    using JSON_print_first_quote by blast
  define ds where
    "ds = tl (join_with '','' (map (\<lambda>x. JSON_print (quote x)) (p # qs))) @ CHR '']'' # t"
  have ds: "join_with '','' (map (\<lambda>x. JSON_print (quote x)) (p # qs)) @ CHR '']'' # t = dquote # ds"
    unfolding ds_def using cs by (cases qs) simp_all
  have pe: "parse_elements (Suc (Suc (length qs + Suc n))) (dquote # ds) =
      Some (map quote (p # qs), t)"
    using parse_elements_strings [of qs "Suc n" p t] unfolding ds .
  have "parse_value (Suc (Suc (Suc (length ps + n))))
      (CHR ''['' # join_with '','' (map (\<lambda>x. JSON_print (quote x)) (p # qs)) @ CHR '']'' # t) =
      Some (JArray (map quote (p # qs)), t)"
    unfolding ds using pe
    by (simp add: Cons skip_ws_token dquote_facts del: parse_elements.simps)
  then show ?thesis
    by (simp add: Cons comp_def del: parse_value.simps)
qed


lemma string_body_plain_key: "plain_key k \<Longrightarrow> string_body (k @ dquote # t) = Some (k, t)"
  by (induction k) (simp_all add: plain_key_def)

lemma parse_members_text:
  assumes "\<forall>m \<in> set (m0 # ms). plain_key (fst m) \<and> parses_in n (snd m)"
  shows "parse_members (Suc (length ms + n))
           (join_with '','' (map member_text (m0 # ms)) @ CHR ''}'' # t) =
         Some (m0 # ms, t)"
  using assms
proof (induction ms arbitrary: m0)
  case Nil
  obtain k v where m0: "m0 = (k, v)" by (cases m0)
  from Nil have k: "plain_key k" and v: "parses_in n v"
    by (simp_all add: m0)
  from v have pv: "parse_value n (JSON_print v @ CHR ''}'' # t) = Some (v, CHR ''}'' # t)"
    by (simp add: parses_in_def follows_number_def)
  have sb: "string_body (k @ dquote # CHR '':'' # JSON_print v @ CHR ''}'' # t) =
      Some (k, CHR '':'' # JSON_print v @ CHR ''}'' # t)"
    using k by (rule string_body_plain_key)
  show ?case
    using sb pv
    by (simp add: m0 member_text_def skip_ws_token
        del: parse_value.simps JSON_print.simps)
next
  case (Cons m1 ms)
  obtain k v where m0: "m0 = (k, v)" by (cases m0)
  from Cons.prems have k: "plain_key k" and v: "parses_in n v"
    by (simp_all add: m0)
  let ?rest = "join_with '','' (map member_text (m1 # ms)) @ CHR ''}'' # t"
  from v have pv: "parse_value (Suc (length ms + n)) (JSON_print v @ CHR '','' # ?rest) =
      Some (v, CHR '','' # ?rest)"
    by (simp add: parses_in_def follows_number_def del: parse_value.simps)
  have sb: "string_body (k @ dquote # CHR '':'' # JSON_print v @ CHR '','' # ?rest) =
      Some (k, CHR '':'' # JSON_print v @ CHR '','' # ?rest)"
    using k by (rule string_body_plain_key)
  from Cons.prems have ih: "parse_members (Suc (length ms + n)) ?rest = Some (m1 # ms, t)"
    by (intro Cons.IH) simp
  have "parse_members (Suc (Suc (length ms + n)))
      (dquote # k @ dquote # CHR '':'' # JSON_print v @ CHR '','' # ?rest) =
      Some ((k, v) # m1 # ms, t)"
    using sb pv ih
    by (simp add: skip_ws_token del: parse_value.simps parse_members.simps(2) JSON_print.simps
        add: parse_members.simps(2) [of "Suc (length ms + n)"])
  moreover have "member_text (k, v) = dquote # k @ dquote # CHR '':'' # JSON_print v"
    by (simp add: member_text_def)
  ultimately show ?case
    by (simp add: m0 del: parse_value.simps parse_members.simps JSON_print.simps)
qed


lemma parses_in_mono: "parses_in n v \<Longrightarrow> n \<le> n' \<Longrightarrow> parses_in n' v"
  by (simp add: parses_in_def)

lemma parses_in_string: "parses_in 1 (quote p)"
proof -
  have "parse_value f (JSON_print (quote p) @ c # t) = Some (quote p, c # t)" if "1 \<le> f" for f c t
  proof -
    from that obtain k where "f = Suc k" by (cases f) auto
    then show ?thesis by (simp only: parse_value_string)
  qed
  then show ?thesis by (simp add: parses_in_def del: parse_value.simps JSON_print.simps)
qed

lemma parses_in_bool: "parses_in 1 (JBool b)"
proof -
  have "parse_value f (JSON_print (JBool b) @ c # t) = Some (JBool b, c # t)" if "1 \<le> f" for f c t
  proof -
    from that obtain k where "f = Suc k" by (cases f) auto
    then show ?thesis by (simp only: parse_value_bool)
  qed
  then show ?thesis by (simp add: parses_in_def del: parse_value.simps JSON_print.simps)
qed

lemma parses_in_number: "parses_in 1 (JNumber (show_int i))"
proof -
  have "parse_value f (JSON_print (JNumber (show_int i)) @ c # t) = Some (JNumber (show_int i), c # t)"
    if "1 \<le> f" and "follows_number c" for f c t
  proof -
    from that obtain k where "f = Suc k" by (cases f) auto
    with that show ?thesis by (simp only: parse_value_number)
  qed
  then show ?thesis by (simp add: parses_in_def del: parse_value.simps JSON_print.simps)
qed

lemma parses_in_array: "parses_in (length ps + 3) (JArray (map quote ps))"
proof -
  have "parse_value f (JSON_print (JArray (map quote ps)) @ c # t) =
      Some (JArray (map quote ps), c # t)" if "length ps + 3 \<le> f" for f c t
  proof -
    from that have "f = Suc (Suc (Suc (length ps + (f - (length ps + 3)))))" by simp
    then show ?thesis by (metis parse_value_array)
  qed
  then show ?thesis by (simp add: parses_in_def del: parse_value.simps JSON_print.simps)
qed

lemma JSON_print_object:
  "JSON_print (JObject ms) = CHR ''{'' # join_with '','' (map member_text ms) @ ''}''"
  by (simp add: member_text_def [abs_def])

lemma member_text_first: "\<exists>cs. join_with '','' (map member_text (m0 # ms)) @ x = dquote # cs"
  by (cases ms) (simp_all add: member_text_def)

lemma parse_value_object:
  assumes "\<forall>m \<in> set (m0 # ms). plain_key (fst m) \<and> parses_in n (snd m)"
  shows "parse_value (Suc (Suc (length ms + n))) (JSON_print (JObject (m0 # ms)) @ t) =
           Some (JObject (m0 # ms), t)"
proof -
  obtain cs where cs: "join_with '','' (map member_text (m0 # ms)) @ CHR ''}'' # t = dquote # cs"
    using member_text_first by blast
  have pm: "parse_members (Suc (length ms + n)) (dquote # cs) = Some (m0 # ms, t)"
    using parse_members_text [OF assms, of t] unfolding cs .
  have "parse_value (Suc (Suc (length ms + n))) (CHR ''{'' # dquote # cs) =
      Some (JObject (m0 # ms), t)"
    using pm by (simp add: skip_ws_token dquote_facts del: parse_members.simps)
  then show ?thesis
    unfolding JSON_print_object using cs by (simp del: parse_value.simps)
qed

lemma length_join_with:
  "\<forall>x \<in> set xs. x \<noteq> [] \<Longrightarrow> length xs \<le> length (join_with sep xs)"
proof (induction sep xs rule: join_with.induct)
  case (1 sep)
  show ?case by simp
next
  case (2 sep x)
  then show ?case by (simp add: Suc_le_eq)
next
  case (3 sep x y ys)
  then have "length (y # ys) \<le> length (join_with sep (y # ys))"
    by simp
  moreover from 3 obtain c cs where "x = c # cs"
    by (cases x) auto
  ultimately show ?case
    by simp
qed

lemma length_JSON_stringify: "length (participants m) + 11 \<le> 2 * length (JSON_stringify m) + 2"
proof -
  have "length (map (\<lambda>p. JSON_print (quote p)) (participants m)) \<le>
      length (join_with '','' (map (\<lambda>p. JSON_print (quote p)) (participants m)))"
    by (rule length_join_with) (simp add: quote_def)
  then show ?thesis
    by (simp add: JSON_stringify_def toJSON_def comp_def)
qed

lemma JSON_parse_stringify: "JSON_parse (JSON_stringify m) = Inr (toJSON m)"
proof -
  let ?n = "length (participants m) + 3"
  let ?ms = "[(''hostId'', quote (hostId m)),
        (''hostName'', quote (hostName m)),
        (''topic'', quote (topic m)),
        (''startTime'', JNumber (show_int (startTime m))),
        (''isActive'', JBool (isActive m)),
        (''participants'', JArray (map quote (participants m)))]"
  have keys: "plain_key ''id''" "plain_key ''hostId''" "plain_key ''hostName''" "plain_key ''topic''"
    "plain_key ''startTime''" "plain_key ''isActive''" "plain_key ''participants''"
    by (simp_all add: plain_key_def dquote_def backslash_def)
  have vals: "parses_in ?n (quote x)" "parses_in ?n (JBool b)" "parses_in ?n (JNumber (show_int i))"
    "parses_in ?n (JArray (map quote (participants m)))" for x b i
    by (rule parses_in_mono [OF parses_in_string], simp)
      (rule parses_in_mono [OF parses_in_bool], simp,
       rule parses_in_mono [OF parses_in_number], simp,
       rule parses_in_array)
  have all: "\<forall>e \<in> set ((''id'', quote (mid m)) # ?ms). plain_key (fst e) \<and> parses_in ?n (snd e)"
    using keys vals by simp
  have pv: "parse_value (Suc (Suc (length ?ms + ?n + k))) (JSON_print (toJSON m) @ []) =
      Some (toJSON m, [])" for k
  proof -
    have "\<forall>e \<in> set ((''id'', quote (mid m)) # ?ms). plain_key (fst e) \<and> parses_in (?n + k) (snd e)"
      using all by (auto intro: parses_in_mono)
    from parse_value_object [OF this, of "[]"] show ?thesis
      by (simp only: toJSON_def add.assoc)
  qed
  define k where "k = 2 * length (JSON_stringify m) + 2 - (length (participants m) + 11)"
  have fuel: "2 * length (JSON_stringify m) + 2 = Suc (Suc (length ?ms + ?n + k))"
    unfolding k_def using length_JSON_stringify [of m] by simp
  have "parse_value (2 * length (JSON_stringify m) + 2) (JSON_stringify m) = Some (toJSON m, [])"
    unfolding fuel using pv [of k] by (simp only: JSON_stringify_def append_Nil2)
  then show ?thesis
    by (simp add: JSON_parse_def skip_ws_token)
qed

lemma JSON_stringify_nonempty: "JSON_stringify m \<noteq> []"
  by (simp add: JSON_stringify_def toJSON_def)

subsection \<open>Joining a meeting\<close>

lemma count_list_append_one:
  "x \<notin> set xs \<Longrightarrow> count_list (xs @ [x]) x = 1"
  by (induction xs) auto

lemma count_list_pos:
  "x \<in> set xs \<Longrightarrow> 1 \<le> count_list xs x"
  by (induction xs) auto

lemma handleStartLiveMeeting_distinct:
  "liveMeeting (fst (handleStartLiveMeeting (Some u) rnd now tp s)) = Some m \<Longrightarrow>
   distinct (participants m)"
  by (auto simp: handleStartLiveMeeting_def Let_def)

text \<open>
  Claim C4, as stated, promises "exactly once" for every active meeting.  The handler
  appends a missing name and never removes one: a context that has adopted a record in
  which the name \<open>Mike Developer\<close> stands twice (the poll takes such a record from the
  store as it is) still holds it twice after that user has joined twice.
\<close>

theorem joinMeeting_exactly_once_counterexample:
  "checkMeeting dupStore = Inr (toJSON dupMeeting) \<and>
   liveMeeting dupState = Some dupMeeting \<and>
   isActive dupMeeting \<and>
   liveMeeting
     (fst (handleJoinLiveMeeting (Some mockEmployee)
        (fst (handleJoinLiveMeeting (Some mockEmployee) dupState)))) = Some dupMeeting \<and>
   count_list (participants dupMeeting) (name mockEmployee) = 2"
  by (simp add: checkMeeting_def dupStore_def JSON_parse_stringify JSON_stringify_nonempty
      dupState_def handleJoinLiveMeeting_def dupMeeting_def sampleMeeting_def mockEmployee_def)

text \<open>
  Claim C4, amended.  While a meeting is held locally: a join by a user whose name is
  absent appends the name once, replaces the local meeting and writes the updated
  record under the shared key; a join by a user whose name is already present changes
  nothing and writes nothing, so it adds no duplicate; in both cases a second join by
  the same user changes nothing and writes nothing, and after the join the name occurs
  in the participants list as often as before, or once if it was absent.  Hence two
  joins in succession leave the name exactly once for every meeting that held it at
  most once before, and a list without duplicates (such as the one that
  \<^verbatim>\<open>startMeeting\<close> creates) stays without duplicates.
\<close>

theorem joinMeeting_idempotent:
  assumes "liveMeeting s = Some m"
  shows
    "(name u \<notin> set (participants m) \<longrightarrow>
        handleJoinLiveMeeting (Some u) s =
          (s\<lparr>liveMeeting := Some (m\<lparr>participants := participants m @ [name u]\<rparr>)\<rparr>,
           [SetItem MEETING_KEY (JSON_stringify (m\<lparr>participants := participants m @ [name u]\<rparr>))])) \<and>
     (name u \<in> set (participants m) \<longrightarrow> handleJoinLiveMeeting (Some u) s = (s, [])) \<and>
     (\<exists>m'. liveMeeting (fst (handleJoinLiveMeeting (Some u) s)) = Some m' \<and>
        handleJoinLiveMeeting (Some u) (fst (handleJoinLiveMeeting (Some u) s)) =
          (fst (handleJoinLiveMeeting (Some u) s), []) \<and>
        name u \<in> set (participants m') \<and>
        count_list (participants m') (name u) = max 1 (count_list (participants m) (name u)) \<and>
        (count_list (participants m) (name u) \<le> 1 \<longrightarrow>
           count_list (participants m') (name u) = 1) \<and>
        (distinct (participants m) \<longrightarrow> distinct (participants m')))"
proof (cases "name u \<in> set (participants m)")
  case True
  with assms have j: "handleJoinLiveMeeting (Some u) s = (s, [])"
    by (simp add: handleJoinLiveMeeting_def)
  from True have "1 \<le> count_list (participants m) (name u)"
    by (rule count_list_pos)
  with True assms j show ?thesis
    by (auto simp: max_def)
next
  case False
  let ?m' = "m\<lparr>participants := participants m @ [name u]\<rparr>"
  from False assms have j: "handleJoinLiveMeeting (Some u) s =
      (s\<lparr>liveMeeting := Some ?m'\<rparr>, [SetItem MEETING_KEY (JSON_stringify ?m')])"
    by (simp add: handleJoinLiveMeeting_def Let_def)
  have again: "handleJoinLiveMeeting (Some u) (s\<lparr>liveMeeting := Some ?m'\<rparr>) =
      (s\<lparr>liveMeeting := Some ?m'\<rparr>, [])"
    by (simp add: handleJoinLiveMeeting_def)
  from False have c0: "count_list (participants m) (name u) = 0"
    by (simp add: count_list_0_iff)
  from False have c1: "count_list (participants ?m') (name u) = 1"
    by (simp add: count_list_append_one)
  have ex: "\<exists>m'. liveMeeting (fst (handleJoinLiveMeeting (Some u) s)) = Some m' \<and>
        handleJoinLiveMeeting (Some u) (fst (handleJoinLiveMeeting (Some u) s)) =
          (fst (handleJoinLiveMeeting (Some u) s), []) \<and>
        name u \<in> set (participants m') \<and>
        count_list (participants m') (name u) = max 1 (count_list (participants m) (name u)) \<and>
        (count_list (participants m) (name u) \<le> 1 \<longrightarrow>
           count_list (participants m') (name u) = 1) \<and>
        (distinct (participants m) \<longrightarrow> distinct (participants m'))"
    unfolding j using False again c0 c1 by (intro exI [of _ ?m']) simp
  from False j ex show ?thesis
    by blast
qed

theorem joinMeeting_idempotent_witness:
  "liveMeeting meetingState = Some sampleMeeting \<and>
   name mockEmployee \<notin> set (participants sampleMeeting) \<and>
   count_list (participants sampleMeeting) (name mockEmployee) \<le> 1 \<and>
   handleJoinLiveMeeting (Some mockEmployee) meetingState =
     (meetingState\<lparr>liveMeeting := Some joinedMeeting\<rparr>,
      [SetItem MEETING_KEY (JSON_stringify joinedMeeting)]) \<and>
   handleJoinLiveMeeting (Some mockEmployee) (meetingState\<lparr>liveMeeting := Some joinedMeeting\<rparr>) =
     (meetingState\<lparr>liveMeeting := Some joinedMeeting\<rparr>, []) \<and>
   count_list (participants joinedMeeting) (name mockEmployee) = 1 \<and>
   name mockManager \<in> set (participants sampleMeeting) \<and>
   handleJoinLiveMeeting (Some mockManager) meetingState = (meetingState, [])"
proof -
  have a: "liveMeeting meetingState = Some sampleMeeting"
    by (simp add: meetingState_def)
  have n: "name mockEmployee \<notin> set (participants sampleMeeting)"
    by (simp add: sampleMeeting_def mockEmployee_def)
  have c: "count_list (participants sampleMeeting) (name mockEmployee) \<le> 1"
    by (simp add: sampleMeeting_def mockEmployee_def)
  have p: "name mockManager \<in> set (participants sampleMeeting)"
    by (simp add: sampleMeeting_def mockManager_def)
  have jm: "sampleMeeting\<lparr>participants := participants sampleMeeting @ [name mockEmployee]\<rparr> =
      joinedMeeting"
    by (simp add: joinedMeeting_def sampleMeeting_def mockEmployee_def)
  note t1 = joinMeeting_idempotent [OF a, of mockEmployee, unfolded jm]
  from t1 n have j1: "handleJoinLiveMeeting (Some mockEmployee) meetingState =
     (meetingState\<lparr>liveMeeting := Some joinedMeeting\<rparr>,
      [SetItem MEETING_KEY (JSON_stringify joinedMeeting)])"
    by blast
  from t1 c obtain m' where m':
    "liveMeeting (fst (handleJoinLiveMeeting (Some mockEmployee) meetingState)) = Some m'"
    "handleJoinLiveMeeting (Some mockEmployee)
          (fst (handleJoinLiveMeeting (Some mockEmployee) meetingState)) =
        (fst (handleJoinLiveMeeting (Some mockEmployee) meetingState), [])"
    "count_list (participants m') (name mockEmployee) = 1"
    by blast
  from m'(1) have eq: "m' = joinedMeeting"
    unfolding j1 by simp
  from m'(2) have j2: "handleJoinLiveMeeting (Some mockEmployee)
      (meetingState\<lparr>liveMeeting := Some joinedMeeting\<rparr>) =
     (meetingState\<lparr>liveMeeting := Some joinedMeeting\<rparr>, [])"
    unfolding j1 by simp
  from m'(3) have c1: "count_list (participants joinedMeeting) (name mockEmployee) = 1"
    unfolding eq .
  from joinMeeting_idempotent [OF a, of mockManager] p
  have q: "handleJoinLiveMeeting (Some mockManager) meetingState = (meetingState, [])"
    by blast
  show ?thesis
    using a n c j1 j2 c1 p q by blast
qed

text \<open>
  Claim C10.  When the joining user's name is already in the participants list,
  \<^verbatim>\<open>handleJoinLiveMeeting\<close> performs no effect at all (no \<^verbatim>\<open>setItem\<close>, so the store is
  not rewritten) and returns the component state as it was.
\<close>

theorem joinMeeting_present_is_noop:
  assumes "liveMeeting s = Some m" and "name u \<in> set (participants m)"
  shows "handleJoinLiveMeeting (Some u) s = (s, []) \<and>
         apply_effects (snd (handleJoinLiveMeeting (Some u) s)) st = st"
  using assms by (simp add: handleJoinLiveMeeting_def apply_effects_def)

theorem joinMeeting_present_is_noop_witness:
  "liveMeeting meetingState = Some sampleMeeting \<and>
   name mockManager \<in> set (participants sampleMeeting) \<and>
   handleJoinLiveMeeting (Some mockManager) meetingState = (meetingState, []) \<and>
   apply_effects (snd (handleJoinLiveMeeting (Some mockManager) meetingState)) Map.empty = Map.empty"
proof -
  have a: "liveMeeting meetingState = Some sampleMeeting"
    by (simp add: meetingState_def)
  have b: "name mockManager \<in> set (participants sampleMeeting)"
    by (simp add: mockManager_def sampleMeeting_def)
  show ?thesis
    using a b joinMeeting_present_is_noop [OF a b, of Map.empty] by (simp add: apply_effects_def)
qed


subsection \<open>Starting a meeting\<close>

lemma trim_empty_iff: "trim s = [] \<longleftrightarrow> (\<forall>c \<in> set s. isWhiteSpace c)"
proof
  assume "trim s = []"
  then have all: "\<forall>c \<in> set (dropWhile isWhiteSpace s). isWhiteSpace c"
    by (simp add: trim_def)
  have "dropWhile isWhiteSpace s = []"
  proof (rule ccontr)
    assume ne: "dropWhile isWhiteSpace s \<noteq> []"
    then have "\<not> isWhiteSpace (hd (dropWhile isWhiteSpace s))"
      by (rule hd_dropWhile)
    moreover from ne have "hd (dropWhile isWhiteSpace s) \<in> set (dropWhile isWhiteSpace s)"
      by simp
    ultimately show False
      using all by blast
  qed
  then show "\<forall>c \<in> set s. isWhiteSpace c"
    by simp
next
  assume "\<forall>c \<in> set s. isWhiteSpace c"
  then have d: "dropWhile isWhiteSpace s = []"
    by simp
  show "trim s = []"
    unfolding trim_def d by simp
qed

text \<open>
  Claim C5.  The two controls that call \<^verbatim>\<open>handleStartMeeting\<close> are rendered in the
  branch of the lobby where the camera stream is present (the other branch of
  \<^verbatim>\<open>!stream ? ... : ...\<close> offers only the button that acquires it), so the operation is
  invoked with the stream acquired.  For a host-eligible user (ADMIN or MANAGER) with no
  currently active meeting: when the topic is empty or consists of white space only,
  \<^verbatim>\<open>handleStartMeeting\<close> sets the topic error, performs no effect (nothing is written to
  the store) and leaves the \<^verbatim>\<open>App\<close> state unchanged; when the topic has a character that is
  not white space, it sets \<^verbatim>\<open>liveMeeting\<close> to a new meeting whose participants list is
  exactly the host's name and whose \<^verbatim>\<open>isActive\<close> is true, and writes that meeting,
  serialised, under the shared key.
\<close>

theorem startMeeting_validates_topic:
  assumes host: "role u = ADMIN \<or> role u = MANAGER"
    and inactive: "liveMeeting s = None \<or> (\<exists>m. liveMeeting s = Some m \<and> \<not> isActive m)"
    and camera: "stream room \<noteq> None"
  shows "((\<forall>c \<in> set (meetingTopic room). isWhiteSpace c) \<longrightarrow>
           handleStartMeeting (Some u) rnd now room s =
             (room\<lparr>error := Some ''Please define a meeting topic.''\<rparr>, s, [])) \<and>
         ((\<exists>c \<in> set (meetingTopic room). \<not> isWhiteSpace c) \<longrightarrow>
           (\<exists>m. handleStartMeeting (Some u) rnd now room s =
                  (room\<lparr>view := Live\<rparr>, s\<lparr>liveMeeting := Some m\<rparr>,
                   [SetItem MEETING_KEY (JSON_stringify m)]) \<and>
                participants m = [name u] \<and> isActive m \<and> topic m = meetingTopic room \<and>
                hostId m = uid u \<and> hostName m = name u \<and>
                mid m = randomId rnd \<and> startTime m = now))"
proof -
  from inactive have na: "(case liveMeeting s of None \<Rightarrow> False | Some m \<Rightarrow> isActive m) = False"
    by auto
  from host have h: "isHost (Some u)"
    by (auto simp: isHost_def)
  show ?thesis
    using camera h na
    by (auto simp: handleStartMeeting_def handleStartLiveMeeting_def trim_empty_iff Let_def)
qed

theorem startMeeting_validates_topic_witness:
  "(role mockManager = ADMIN \<or> role mockManager = MANAGER) \<and>
   liveMeeting (initialApp sampleClock) = None \<and>
   stream lobby \<noteq> None \<and> stream blankTopic \<noteq> None \<and>
   (\<exists>c \<in> set (meetingTopic lobby). \<not> isWhiteSpace c) \<and>
   (\<exists>m. handleStartMeeting (Some mockManager) ''0.k2j4h5g6f7d8'' 1700000000000 lobby
            (initialApp sampleClock) =
          (lobby\<lparr>view := Live\<rparr>, (initialApp sampleClock)\<lparr>liveMeeting := Some m\<rparr>,
           [SetItem MEETING_KEY (JSON_stringify m)]) \<and>
        participants m = [''Sarah Manager''] \<and> isActive m \<and> topic m = ''Sprint Review'') \<and>
   trim (meetingTopic blankTopic) = [] \<and>
   handleStartMeeting (Some mockManager) ''0.k2j4h5g6f7d8'' 1700000000000 blankTopic
       (initialApp sampleClock) =
     (blankTopic\<lparr>error := Some ''Please define a meeting topic.''\<rparr>, initialApp sampleClock, [])"
proof -
  have h: "role mockManager = ADMIN \<or> role mockManager = MANAGER"
    by (simp add: mockManager_def)
  have n: "liveMeeting (initialApp sampleClock) = None \<or>
      (\<exists>m. liveMeeting (initialApp sampleClock) = Some m \<and> \<not> isActive m)"
    by (simp add: initialApp_def)
  have c1: "stream lobby \<noteq> None" and c2: "stream blankTopic \<noteq> None"
    by (simp_all add: lobby_def blankTopic_def)
  have t1: "\<exists>c \<in> set (meetingTopic lobby). \<not> isWhiteSpace c"
    by (simp add: lobby_def isWhiteSpace_def)
  have t2: "\<forall>c \<in> set (meetingTopic blankTopic). isWhiteSpace c"
    by (simp add: blankTopic_def isWhiteSpace_def)
  have t2': "trim (meetingTopic blankTopic) = []"
    using t2 by (simp add: trim_empty_iff)
  note thm1 = startMeeting_validates_topic [OF h n c1, of "''0.k2j4h5g6f7d8''" 1700000000000]
  note thm2 = startMeeting_validates_topic [OF h n c2, of "''0.k2j4h5g6f7d8''" 1700000000000]
  from thm1 t1 obtain m where m:
    "handleStartMeeting (Some mockManager) ''0.k2j4h5g6f7d8'' 1700000000000 lobby
            (initialApp sampleClock) =
          (lobby\<lparr>view := Live\<rparr>, (initialApp sampleClock)\<lparr>liveMeeting := Some m\<rparr>,
           [SetItem MEETING_KEY (JSON_stringify m)])"
    "participants m = [name mockManager]" "isActive m" "topic m = meetingTopic lobby"
    by blast
  from thm2 t2 have b:
    "handleStartMeeting (Some mockManager) ''0.k2j4h5g6f7d8'' 1700000000000 blankTopic
       (initialApp sampleClock) =
     (blankTopic\<lparr>error := Some ''Please define a meeting topic.''\<rparr>, initialApp sampleClock, [])"
    by blast
  have nm: "name mockManager = ''Sarah Manager''" "meetingTopic lobby = ''Sprint Review''"
    by (simp_all add: mockManager_def lobby_def)
  have n0: "liveMeeting (initialApp sampleClock) = None"
    by (simp add: initialApp_def)
  show ?thesis
    using h n0 c1 c2 t1 t2' m b unfolding nm by blast
qed


subsection \<open>Polling the shared record\<close>

lemma parse_corrupt: "JSON_parse ''[object Object]'' = Inl SyntaxError"
  by code_simp

lemma parse_empty_object: "JSON_parse ''{}'' = Inr (JObject [])"
  by code_simp

lemma parse_sampleMeeting: "JSON_parse (JSON_stringify sampleMeeting) = Inr (toJSON sampleMeeting)"
  by (rule JSON_parse_stringify)

text \<open>
  Claim C2, as stated, lets no stored value make the polling step throw.  With the text
  \<open>[object Object]\<close> under the shared key, \<^verbatim>\<open>JSON.parse\<close> throws and nothing catches
  it: \<^verbatim>\<open>checkMeeting\<close> ends with the \<^verbatim>\<open>SyntaxError\<close> and a context that held a meeting keeps
  it.  With the wrong-shape text \<open>{}\<close> the local state becomes that object, not
  \<^verbatim>\<open>null\<close>.
\<close>

theorem checkMeeting_malformed_counterexample:
  "checkMeeting corruptStore = Inl SyntaxError \<and>
   pollStep corruptStore (toJSON sampleMeeting) = toJSON sampleMeeting \<and>
   toJSON sampleMeeting \<noteq> JNull \<and>
   checkMeeting wrongShapeStore = Inr (JObject []) \<and>
   pollStep wrongShapeStore JNull \<noteq> JNull"
  by (simp add: checkMeeting_def pollStep_def corruptStore_def wrongShapeStore_def
      parse_corrupt parse_empty_object toJSON_def)

text \<open>
  Claim C2, amended.  One execution of \<^verbatim>\<open>checkMeeting\<close> does not throw when the value
  under the shared key is absent, empty or valid JSON text: an absent or empty value
  sets the local state to \<^verbatim>\<open>null\<close> ("no active meeting"), and a valid JSON text sets it to
  the parsed value, whatever its shape; the text written by a start or a join is valid
  and gives the meeting back.  A non-empty value that is not valid JSON text
  makes \<^verbatim>\<open>JSON.parse\<close> throw a \<^verbatim>\<open>SyntaxError\<close> that \<^verbatim>\<open>checkMeeting\<close> does not catch, and the
  local state stays what it was.
\<close>

theorem checkMeeting_outcomes:
  "(st MEETING_KEY = None \<or> st MEETING_KEY = Some [] \<longrightarrow>
      checkMeeting st = Inr JNull \<and> pollStep st cell = JNull) \<and>
   (\<forall>stored v. st MEETING_KEY = Some stored \<longrightarrow> stored \<noteq> [] \<longrightarrow>
      JSON_parse stored = Inr v \<longrightarrow>
      checkMeeting st = Inr v \<and> pollStep st cell = v) \<and>
   (\<forall>m. st MEETING_KEY = Some (JSON_stringify m) \<longrightarrow>
      checkMeeting st = Inr (toJSON m) \<and> pollStep st cell = toJSON m) \<and>
   (\<forall>stored. st MEETING_KEY = Some stored \<longrightarrow> stored \<noteq> [] \<longrightarrow>
      JSON_parse stored = Inl SyntaxError \<longrightarrow>
      checkMeeting st = Inl SyntaxError \<and> pollStep st cell = cell)"
  by (auto simp: checkMeeting_def pollStep_def JSON_parse_stringify JSON_stringify_nonempty)

theorem checkMeeting_outcomes_witness:
  "Map.empty MEETING_KEY = (None :: string option) \<and>
   checkMeeting Map.empty = Inr JNull \<and>
   pollStep Map.empty (toJSON sampleMeeting) = JNull \<and>
   liveStore MEETING_KEY = Some (JSON_stringify sampleMeeting) \<and>
   JSON_stringify sampleMeeting \<noteq> [] \<and>
   JSON_parse (JSON_stringify sampleMeeting) = Inr (toJSON sampleMeeting) \<and>
   checkMeeting liveStore = Inr (toJSON sampleMeeting) \<and>
   pollStep liveStore JNull = toJSON sampleMeeting \<and>
   corruptStore MEETING_KEY = Some ''[object Object]'' \<and>
   JSON_parse ''[object Object]'' = Inl SyntaxError \<and>
   checkMeeting corruptStore = Inl SyntaxError \<and>
   pollStep corruptStore JNull = JNull"
proof -
  have k1: "Map.empty MEETING_KEY = (None :: string option)"
    by simp
  have k2: "liveStore MEETING_KEY = Some (JSON_stringify sampleMeeting)"
    by (simp add: liveStore_def)
  have ne2: "JSON_stringify sampleMeeting \<noteq> []"
    by (rule JSON_stringify_nonempty)
  have k3: "corruptStore MEETING_KEY = Some ''[object Object]''"
    by (simp add: corruptStore_def)
  from checkMeeting_outcomes [of Map.empty "toJSON sampleMeeting"] k1
  have a: "checkMeeting Map.empty = Inr JNull \<and> pollStep Map.empty (toJSON sampleMeeting) = JNull"
    by blast
  from checkMeeting_outcomes [of liveStore JNull] k2 ne2 parse_sampleMeeting
  have b: "checkMeeting liveStore = Inr (toJSON sampleMeeting) \<and>
           pollStep liveStore JNull = toJSON sampleMeeting"
    by blast
  from checkMeeting_outcomes [of corruptStore JNull] k3 parse_corrupt
  have c: "checkMeeting corruptStore = Inl SyntaxError \<and> pollStep corruptStore JNull = JNull"
    by blast
  show ?thesis
    using k1 k2 ne2 k3 a b c parse_sampleMeeting parse_corrupt by blast
qed

lemma apply_effects_key_absent:
  "\<forall>v. SetItem k v \<notin> set es \<Longrightarrow> st k = None \<Longrightarrow> apply_effects es st k = None"
  unfolding apply_effects_def
proof (induction es arbitrary: st)
  case Nil
  then show ?case by simp
next
  case (Cons e es)
  have "apply_effect e st k = None"
    using Cons.prems by (cases e) auto
  moreover from Cons.prems have "\<forall>v. SetItem k v \<notin> set es"
    by simp
  ultimately show ?case
    using Cons.IH [of "apply_effect e st"] by simp
qed

text \<open>
  Claim C8, as stated, makes every poller's next poll see no meeting once the record is
  removed.  Nothing stops a context from writing between the stop and its poll: the
  employee, whose context still holds the meeting it polled before the stop, joins
  through \<^verbatim>\<open>handleStartMeeting\<close>; the join writes the whole record back, and the next
  poll of any context adopts it.
\<close>

theorem stopMeeting_stale_join_counterexample:
  "liveMeeting meetingState = Some sampleMeeting \<and>
   apply_effects (snd (handleStopLiveMeeting meetingState)) liveStore MEETING_KEY = None \<and>
   stream lobby \<noteq> None \<and>
   checkMeeting
     (apply_effects
        (snd (snd (handleStartMeeting (Some mockEmployee) ''0.x'' 1700000000500 lobby meetingState)))
        (apply_effects (snd (handleStopLiveMeeting meetingState)) liveStore)) =
     Inr (toJSON joinedMeeting) \<and>
   pollStep
     (apply_effects
        (snd (snd (handleStartMeeting (Some mockEmployee) ''0.x'' 1700000000500 lobby meetingState)))
        (apply_effects (snd (handleStopLiveMeeting meetingState)) liveStore)) JNull \<noteq> JNull"
proof -
  have jm: "sampleMeeting\<lparr>participants := participants sampleMeeting @ [name mockEmployee]\<rparr> =
      joinedMeeting"
    by (simp add: joinedMeeting_def sampleMeeting_def mockEmployee_def)
  have j: "snd (snd (handleStartMeeting (Some mockEmployee) ''0.x'' 1700000000500 lobby meetingState)) =
      [SetItem MEETING_KEY (JSON_stringify joinedMeeting)]"
    by (simp add: handleStartMeeting_def handleJoinLiveMeeting_def lobby_def isHost_def
        meetingState_def Let_def jm [symmetric])
      (simp add: sampleMeeting_def mockEmployee_def)
  have nn: "toJSON joinedMeeting \<noteq> JNull"
    by (simp add: toJSON_def)
  show ?thesis
    unfolding j
    by (simp add: meetingState_def handleStopLiveMeeting_def apply_effects_def lobby_def
        checkMeeting_def pollStep_def JSON_parse_stringify JSON_stringify_nonempty nn)
qed

text \<open>
  Claim C8, amended.  \<^verbatim>\<open>handleStopLiveMeeting\<close> sets the host's \<^verbatim>\<open>liveMeeting\<close> to
  \<^verbatim>\<open>null\<close> and removes the shared record.  As long as no context writes the record
  under the shared key after the stop (whatever else the contexts do), the key stays
  absent, and an execution of \<^verbatim>\<open>checkMeeting\<close> in any context returns without throwing
  and sets that context's \<^verbatim>\<open>liveMeeting\<close> to \<^verbatim>\<open>null\<close>, whatever the context held
  before: all pollers converge to "no active meeting".
\<close>

theorem stopMeeting_then_poll_sees_none:
  assumes "\<forall>v. SetItem MEETING_KEY v \<notin> set es"
  shows "liveMeeting (fst (handleStopLiveMeeting s)) = None \<and>
   apply_effects es (apply_effects (snd (handleStopLiveMeeting s)) st) MEETING_KEY = None \<and>
   checkMeeting (apply_effects es (apply_effects (snd (handleStopLiveMeeting s)) st)) = Inr JNull \<and>
   pollStep (apply_effects es (apply_effects (snd (handleStopLiveMeeting s)) st)) cell = JNull \<and>
   map (pollStep (apply_effects es (apply_effects (snd (handleStopLiveMeeting s)) st))) cells =
     replicate (length cells) JNull"
proof -
  let ?st = "apply_effects es (apply_effects (snd (handleStopLiveMeeting s)) st)"
  have "apply_effects (snd (handleStopLiveMeeting s)) st MEETING_KEY = None"
    by (simp add: handleStopLiveMeeting_def apply_effects_def)
  with assms have k: "?st MEETING_KEY = None"
    by (rule apply_effects_key_absent)
  then have c: "checkMeeting ?st = Inr JNull"
    by (simp add: checkMeeting_def)
  then have p: "pollStep ?st c' = JNull" for c'
    by (simp add: pollStep_def)
  have "map (pollStep ?st) cells = replicate (length cells) JNull"
    by (induction cells) (simp_all add: p)
  with k c p show ?thesis
    by (simp add: handleStopLiveMeeting_def)
qed

theorem stopMeeting_then_poll_sees_none_witness:
  "(\<forall>v. SetItem MEETING_KEY v \<notin>
        set (snd (handleDeleteTask (Some mockEmployee) (\<lambda>m. True) ''t2'' meetingState) @
             snd (handleJoinLiveMeeting (Some mockManager) meetingState))) \<and>
   checkMeeting liveStore = Inr (toJSON sampleMeeting) \<and>
   liveMeeting (fst (handleStopLiveMeeting meetingState)) = None \<and>
   checkMeeting
     (apply_effects
        (snd (handleDeleteTask (Some mockEmployee) (\<lambda>m. True) ''t2'' meetingState) @
         snd (handleJoinLiveMeeting (Some mockManager) meetingState))
        (apply_effects (snd (handleStopLiveMeeting meetingState)) liveStore)) = Inr JNull \<and>
   map (pollStep
     (apply_effects
        (snd (handleDeleteTask (Some mockEmployee) (\<lambda>m. True) ''t2'' meetingState) @
         snd (handleJoinLiveMeeting (Some mockManager) meetingState))
        (apply_effects (snd (handleStopLiveMeeting meetingState)) liveStore)))
     [toJSON sampleMeeting, JNull, toJSON joinedMeeting] = [JNull, JNull, JNull]"
proof -
  have es: "snd (handleDeleteTask (Some mockEmployee) (\<lambda>m. True) ''t2'' meetingState) @
         snd (handleJoinLiveMeeting (Some mockManager) meetingState) =
      [Alert ''Clearance Level Insufficient: Cannot delete objectives.'']"
    by (simp add: handleDeleteTask_def handleJoinLiveMeeting_def mockEmployee_def mockManager_def
        meetingState_def sampleMeeting_def)
  have h: "\<forall>v. SetItem MEETING_KEY v \<notin>
        set (snd (handleDeleteTask (Some mockEmployee) (\<lambda>m. True) ''t2'' meetingState) @
             snd (handleJoinLiveMeeting (Some mockManager) meetingState))"
    unfolding es by simp
  have b: "checkMeeting liveStore = Inr (toJSON sampleMeeting)"
    by (simp add: checkMeeting_def liveStore_def JSON_parse_stringify JSON_stringify_nonempty)
  from stopMeeting_then_poll_sees_none [OF h, of meetingState liveStore JNull
      "[toJSON sampleMeeting, JNull, toJSON joinedMeeting]"]
  show ?thesis
    using h b by simp
qed

end
